theory Spec2Isabelle
  imports Main "HOL-Library.Word"
begin

unbundle bit_operations_syntax

section \<open>Machine types, errors and their sequencing\<close>

text \<open>
  The disassembler of \<^verbatim>\<open>src/src/elf_parser.cpp\<close> works on \<^verbatim>\<open>std::uint8_t\<close>,
  \<^verbatim>\<open>std::uint16_t\<close> and \<^verbatim>\<open>std::uint32_t\<close> values; they are words here. The C++
  \<^verbatim>\<open>int\<close> arguments \<^verbatim>\<open>l\<close>, \<^verbatim>\<open>r\<close> of the bit extractors are HOL integers (they stay
  far from the 32-bit limits), and \<^verbatim>\<open>std::size_t\<close> is taken to be 64 bits wide.

  The theory follows the source from the leaves up: the bit extractor, the register
  namer, the decoder of one instruction, the emitter, the loop of \<^verbatim>\<open>parse_text\<close>,
  \<^verbatim>\<open>calc_tags\<close> and \<^verbatim>\<open>parse_symtab\<close>. The input file is the list of its bytes and the
  section headers are given as a list of records; how \<^verbatim>\<open>parse\<close> reads the ELF header
  and the section headers from the file is not part of it.
\<close>

type_synonym u8 = "8 word"
type_synonym u16 = "16 word"
type_synonym u32 = "32 word"

text \<open>
  Every way a run can stop early is a value: \<^verbatim>\<open>std::invalid_argument\<close> with its message,
  the \<^verbatim>\<open>std::ios_base::failure\<close> raised by a failed read (\<^verbatim>\<open>main\<close> arms
  \<^verbatim>\<open>failbit | eofbit\<close>), \<^verbatim>\<open>std::out_of_range\<close> of \<^verbatim>\<open>substr\<close>, and undefined behaviour
  (a shift by at least the width of the operand, an index outside a vector, a buffer
  that \<^verbatim>\<open>sprintf\<close> overruns).
\<close>

datatype error = InvalidArgument string | IOFailure | OutOfRange | UndefinedBehaviour

definition and_then :: "error + 'a \<Rightarrow> ('a \<Rightarrow> error + 'b) \<Rightarrow> error + 'b" where
  "and_then m k = (case m of Inl e \<Rightarrow> Inl e | Inr x \<Rightarrow> k x)"

text \<open>A braced initialiser list evaluates its elements from left to right.\<close>

fun collect :: "(error + 'a) list \<Rightarrow> error + 'a list" where
  "collect [] = Inr []"
| "collect (m # ms) = and_then m (\<lambda>x. and_then (collect ms) (\<lambda>xs. Inr (x # xs)))"

text \<open>\<^verbatim>\<open>e << n\<close> and \<^verbatim>\<open>e1 + e2 + ...\<close> on \<^verbatim>\<open>std::uint32_t\<close> operands that may fail.\<close>

definition shl :: "error + u32 \<Rightarrow> nat \<Rightarrow> error + u32" where
  "shl m n = and_then m (\<lambda>x. Inr (push_bit n x))"

definition sum_of :: "(error + u32) list \<Rightarrow> error + u32" where
  "sum_of ms = and_then (collect ms) (\<lambda>xs. Inr (foldl (+) 0 xs))"

definition size_t :: "int \<Rightarrow> nat" where
  "size_t k = nat (k mod 2 ^ 64)"

section \<open>Text formatting\<close>

text \<open>
  \<^verbatim>\<open>std::to_string\<close> and the conversions of \<^verbatim>\<open>sprintf\<close> that the program uses:
  \<^verbatim>\<open>%x\<close>, \<^verbatim>\<open>%X\<close>, \<^verbatim>\<open>%i\<close> and \<^verbatim>\<open>%s\<close> with a minimum field width, padded on the left
  (\<^verbatim>\<open>%10s\<close>, \<^verbatim>\<open>%08x\<close>) or, with the \<^verbatim>\<open>-\<close> flag, on the right (\<^verbatim>\<open>%-8s\<close>).
\<close>

definition digit_char :: "nat \<Rightarrow> char" where
  "digit_char d = ''0123456789abcdef'' ! d"

definition upper_digit_char :: "nat \<Rightarrow> char" where
  "upper_digit_char d = ''0123456789ABCDEF'' ! d"

fun digits :: "nat \<Rightarrow> (nat \<Rightarrow> char) \<Rightarrow> nat \<Rightarrow> string" where
  "digits b f n = (if b < 2 \<or> n < b then [f n] else digits b f (n div b) @ [f (n mod b)])"

declare digits.simps [simp del]

definition to_string_nat :: "nat \<Rightarrow> string" where
  "to_string_nat n = digits 10 digit_char n"

definition to_string_u32 :: "u32 \<Rightarrow> string" where
  "to_string_u32 w = to_string_nat (unat w)"

definition to_string_int :: "int \<Rightarrow> string" where
  "to_string_int k = (if k < 0 then CHR ''-'' # to_string_nat (nat (- k)) else to_string_nat (nat k))"

definition hex_lower :: "nat \<Rightarrow> string" where
  "hex_lower n = digits 16 digit_char n"

definition hex_upper :: "nat \<Rightarrow> string" where
  "hex_upper n = digits 16 upper_digit_char n"

definition pad_left :: "nat \<Rightarrow> char \<Rightarrow> string \<Rightarrow> string" where
  "pad_left n c s = replicate (n - length s) c @ s"

definition pad_right :: "nat \<Rightarrow> char \<Rightarrow> string \<Rightarrow> string" where
  "pad_right n c s = s @ replicate (n - length s) c"

definition newline :: char where
  "newline = CHR 0x0A"

section \<open>Bit extractor\<close>

text \<open>
  \<^verbatim>\<open>get_segment\<close> (both overloads): the bits \<^verbatim>\<open>l..r\<close> of the word as a string of
  \<^verbatim>\<open>0\<close> and \<^verbatim>\<open>1\<close>, most significant first, cut out of \<^verbatim>\<open>std::bitset::to_string\<close> by
  \<^verbatim>\<open>substr(width - r - 1, r - l + 1)\<close>; both arguments of \<^verbatim>\<open>substr\<close> are converted to
  \<^verbatim>\<open>std::size_t\<close>.
\<close>

definition bit_char :: "bool \<Rightarrow> char" where
  "bit_char b = (if b then CHR ''1'' else CHR ''0'')"

definition bitset_to_string :: "'a::len word \<Rightarrow> string" where
  "bitset_to_string w = map (\<lambda>i. bit_char (bit w i)) (rev [0..<LENGTH('a)])"

definition substr :: "string \<Rightarrow> nat \<Rightarrow> nat \<Rightarrow> error + string" where
  "substr s pos n = (if length s < pos then Inl OutOfRange else Inr (take n (drop pos s)))"

definition get_segment :: "'a::len word \<Rightarrow> int \<Rightarrow> int \<Rightarrow> error + string" where
  "get_segment cmd l r =
     substr (bitset_to_string cmd) (size_t (int LENGTH('a) - r - 1)) (size_t (r - l + 1))"

text \<open>
  \<^verbatim>\<open>get_unsigned\<close>: the loop \<^verbatim>\<open>for (std::size_t i = l; i <= r; i++)\<close>. The comparison
  converts \<^verbatim>\<open>r\<close> to \<^verbatim>\<open>std::size_t\<close>, so a negative \<^verbatim>\<open>r\<close> is a huge bound. The body
  evaluates \<^verbatim>\<open>value >> i\<close> on a 32-bit operand, which is undefined from \<^verbatim>\<open>i = 32\<close> on;
  hence \<^verbatim>\<open>i\<close> never wraps around. The loop starts at \<^verbatim>\<open>i = l\<close>, so \<^verbatim>\<open>i - l\<close> does not
  wrap either.
\<close>

function get_unsigned_loop :: "u32 \<Rightarrow> nat \<Rightarrow> nat \<Rightarrow> nat \<Rightarrow> u32 \<Rightarrow> error + u32" where
  "get_unsigned_loop v l r i result =
     (if i \<le> r then
        (if 32 \<le> i then Inl UndefinedBehaviour
         else get_unsigned_loop v l r (i + 1)
                (if bit v i then result OR push_bit (i - l) 1 else result))
      else Inr result)"
  by pat_completeness auto
termination
  by (relation "measure (\<lambda>(v, l, r, i, result). 32 - i)") auto

declare get_unsigned_loop.simps [simp del]

definition get_unsigned :: "u32 \<Rightarrow> int \<Rightarrow> int \<Rightarrow> error + u32" where
  "get_unsigned v l r = get_unsigned_loop v (size_t l) (size_t r) (size_t l) 0"

text \<open>
  \<^verbatim>\<open>get_signed\<close>: when bit \<^verbatim>\<open>r\<close> is set, the loop \<^verbatim>\<open>for (int i = l; i < r; i++)\<close>
  collects the cleared bits below it and the result is \<^verbatim>\<open>-result - 1\<close>; otherwise the
  result is \<^verbatim>\<open>get_unsigned(value, l, r - 1)\<close> converted to \<^verbatim>\<open>int\<close>. The shifts
  \<^verbatim>\<open>value >> r\<close> and \<^verbatim>\<open>value >> i\<close> are undefined for a negative count and from 32 on.
\<close>

function get_signed_loop :: "u32 \<Rightarrow> int \<Rightarrow> int \<Rightarrow> int \<Rightarrow> int \<Rightarrow> error + int" where
  "get_signed_loop v l r i result =
     (if i < r then
        (if i < 0 \<or> 32 \<le> i then Inl UndefinedBehaviour
         else get_signed_loop v l r (i + 1)
                (if \<not> bit v (nat i) then result OR push_bit (nat (i - l)) 1 else result))
      else Inr result)"
  by pat_completeness auto
termination
  by (relation "measure (\<lambda>(v, l, r, i, result). nat (r - i))") auto

declare get_signed_loop.simps [simp del]

definition get_signed :: "u32 \<Rightarrow> int \<Rightarrow> int \<Rightarrow> error + int" where
  "get_signed v l r =
     (if r < 0 \<or> 32 \<le> r then Inl UndefinedBehaviour
      else if bit v (nat r) then
        and_then (get_signed_loop v l r l 0) (\<lambda>result. Inr (- result - 1))
      else
        and_then (get_unsigned v l (r - 1)) (\<lambda>u. Inr (sint u)))"

section \<open>Register namer\<close>

definition get_reg :: "u32 \<Rightarrow> error + string" where
  "get_reg rid =
     (if rid = 0 then Inr ''zero''
      else if rid = 1 then Inr ''ra''
      else if rid = 2 then Inr ''sp''
      else if rid = 3 then Inr ''gp''
      else if rid = 4 then Inr ''tp''
      else if 5 \<le> rid \<and> rid \<le> 7 then Inr (''t'' @ to_string_u32 (rid - 5))
      else if rid = 8 \<or> rid = 9 then Inr (''s'' @ to_string_u32 (rid - 8))
      else if 10 \<le> rid \<and> rid \<le> 17 then Inr (''a'' @ to_string_u32 (rid - 10))
      else if 18 \<le> rid \<and> rid \<le> 27 then Inr (''s'' @ to_string_u32 (rid - 16))
      else if 28 \<le> rid \<and> rid \<le> 31 then Inr (''t'' @ to_string_u32 (rid - 25))
      else Inl (InvalidArgument ''unknown register''))"

section \<open>Decoded instructions and the label resolver\<close>

text \<open>
  The three local variables of \<^verbatim>\<open>parse_text\<close> that a loop iteration fills in:
  \<^verbatim>\<open>cmd_name\<close>, \<^verbatim>\<open>args\<close> and \<^verbatim>\<open>is_load_store\<close>. They start out empty, empty and
  false (\<open>no_cmd\<close>).
\<close>

record decoded =
  cmd_name :: string
  args :: "string list"
  is_load_store :: bool

definition no_cmd :: decoded where
  "no_cmd = \<lparr>cmd_name = [], args = [], is_load_store = False\<rparr>"

definition decoded_of :: "string \<Rightarrow> bool \<Rightarrow> string list \<Rightarrow> error + decoded" where
  "decoded_of name ls as = Inr \<lparr>cmd_name = name, args = as, is_load_store = ls\<rparr>"

type_synonym tags = "u32 \<rightharpoonup> string"

text \<open>
  The code repeated in every jump and branch case:
  \<^verbatim>\<open>if (tags.count(adr + value)) ... tags[adr + value] ... else ... std::to_string(value)\<close>,
  where \<^verbatim>\<open>adr\<close> is a \<^verbatim>\<open>std::uint32_t\<close> and \<^verbatim>\<open>value\<close> an \<^verbatim>\<open>int\<close>, so the sum is
  taken modulo \<open>2 ^ 32\<close>.
\<close>

definition resolve :: "tags \<Rightarrow> u32 \<Rightarrow> int \<Rightarrow> string" where
  "resolve tags adr v =
     (case tags (adr + word_of_int v) of Some name \<Rightarrow> name | None \<Rightarrow> to_string_int v)"

section \<open>Compressed (16-bit) decoder\<close>

text \<open>
  Immediates that several cases of \<^verbatim>\<open>parse_text\<close> compute by the same expression.
  \<open>ci_imm\<close>: \<^verbatim>\<open>get_signed((get_unsigned(cmd16, 12, 12) << 5) + get_unsigned(cmd16, 2, 6), 0, 5)\<close>
  (c.addi, c.li, c.andi); \<open>ci_uimm\<close>: the same sum, unsigned (c.srli, c.srai, c.slli);
  \<open>cj_offset\<close>: the displacement of c.jal and c.j; \<open>cb_offset\<close>: that of c.beqz and
  c.bnez.
\<close>

definition ci_uimm :: "u16 \<Rightarrow> error + u32" where
  "ci_uimm cmd16 =
     sum_of [shl (get_unsigned (ucast cmd16) 12 12) 5, get_unsigned (ucast cmd16) 2 6]"

definition ci_imm :: "u16 \<Rightarrow> error + int" where
  "ci_imm cmd16 = and_then (ci_uimm cmd16) (\<lambda>uvalue. get_signed uvalue 0 5)"

definition cj_offset :: "u16 \<Rightarrow> error + int" where
  "cj_offset cmd16 =
     and_then (sum_of [shl (get_unsigned (ucast cmd16) 12 12) 11,
                       shl (get_unsigned (ucast cmd16) 11 11) 4,
                       shl (get_unsigned (ucast cmd16) 9 10) 8,
                       shl (get_unsigned (ucast cmd16) 8 8) 10,
                       shl (get_unsigned (ucast cmd16) 7 7) 6,
                       shl (get_unsigned (ucast cmd16) 6 6) 7,
                       shl (get_unsigned (ucast cmd16) 3 5) 1,
                       shl (get_unsigned (ucast cmd16) 2 2) 5])
       (\<lambda>uvalue. get_signed uvalue 0 11)"

definition cb_offset :: "u16 \<Rightarrow> error + int" where
  "cb_offset cmd16 =
     and_then (sum_of [shl (get_unsigned (ucast cmd16) 12 12) 8,
                       shl (get_unsigned (ucast cmd16) 10 11) 3,
                       shl (get_unsigned (ucast cmd16) 5 6) 6,
                       shl (get_unsigned (ucast cmd16) 3 4) 1,
                       shl (get_unsigned (ucast cmd16) 2 2) 5])
       (\<lambda>uvalue. get_signed uvalue 0 8)"

text \<open>Quadrant 0: \<^verbatim>\<open>get_segment(cmd16, 0, 1) == "00"\<close>, lines 274 to 322.\<close>

definition quadrant0 :: "u16 \<Rightarrow> error + decoded" where
  "quadrant0 cmd16 =
     and_then (get_segment cmd16 13 15) (\<lambda>ty.
       if ty = ''000'' then
         and_then (sum_of [shl (get_unsigned (ucast cmd16) 11 12) 4,
                           shl (get_unsigned (ucast cmd16) 7 10) 6,
                           shl (get_unsigned (ucast cmd16) 6 6) 2,
                           shl (get_unsigned (ucast cmd16) 5 5) 3]) (\<lambda>value.
         and_then (collect [and_then (get_unsigned (ucast cmd16) 2 4) (\<lambda>x. get_reg (x + 8)),
                            get_reg 2,
                            Inr (to_string_u32 value)])
           (decoded_of ''c.addi4spn'' False))
       else if ty = ''001'' \<or> ty = ''011'' \<or> ty = ''101'' then
         and_then (sum_of [shl (get_unsigned (ucast cmd16) 10 12) 3,
                           shl (get_unsigned (ucast cmd16) 5 6) 6]) (\<lambda>value.
         and_then (collect [and_then (get_unsigned (ucast cmd16) 2 4) (\<lambda>x. get_reg (x + 8)),
                            Inr (to_string_u32 value),
                            and_then (get_unsigned (ucast cmd16) 7 9) (\<lambda>x. get_reg (x + 8))])
           (decoded_of (if ty = ''001'' then ''c.fld''
                        else if ty = ''011'' then ''c.ld''
                        else ''c.fsd'') True))
       else if ty = ''010'' \<or> ty = ''011'' \<or> ty = ''110'' \<or> ty = ''111'' then
         and_then (sum_of [shl (get_unsigned (ucast cmd16) 10 12) 3,
                           shl (get_unsigned (ucast cmd16) 6 6) 2,
                           shl (get_unsigned (ucast cmd16) 5 5) 6]) (\<lambda>value.
         and_then (collect [and_then (get_unsigned (ucast cmd16) 2 4) (\<lambda>x. get_reg (x + 8)),
                            Inr (to_string_u32 value),
                            and_then (get_unsigned (ucast cmd16) 7 9) (\<lambda>x. get_reg (x + 8))])
           (decoded_of (if ty = ''010'' then ''c.lw''
                        else if ty = ''011'' then ''c.flw''
                        else if ty = ''110'' then ''c.sw''
                        else ''c.fsw'') True))
       else Inr no_cmd)"

text \<open>
  Quadrant 1: \<^verbatim>\<open>get_segment(cmd16, 0, 1) == "01"\<close>, lines 323 to 461. The arithmetic
  group (\<^verbatim>\<open>type == "100"\<close>) is \<open>quadrant1_arith\<close>.
\<close>

definition quadrant1_arith :: "u16 \<Rightarrow> error + decoded" where
  "quadrant1_arith cmd16 =
     and_then (get_segment cmd16 10 11) (\<lambda>sub.
       if sub = ''00'' then
         and_then (collect [and_then (get_unsigned (ucast cmd16) 7 9) (\<lambda>x. get_reg (x + 8)),
                            and_then (get_unsigned (ucast cmd16) 7 9) (\<lambda>x. get_reg (x + 8)),
                            and_then (ci_uimm cmd16) (\<lambda>value. Inr (to_string_u32 value))])
           (decoded_of ''c.srli'' False)
       else if sub = ''01'' then
         and_then (collect [and_then (get_unsigned (ucast cmd16) 7 9) (\<lambda>x. get_reg (x + 8)),
                            and_then (get_unsigned (ucast cmd16) 7 9) (\<lambda>x. get_reg (x + 8)),
                            and_then (ci_uimm cmd16) (\<lambda>value. Inr (to_string_u32 value))])
           (decoded_of ''c.srai'' False)
       else if sub = ''10'' then
         and_then (ci_imm cmd16) (\<lambda>value.
         and_then (collect [and_then (get_unsigned (ucast cmd16) 7 9) (\<lambda>x. get_reg (x + 8)),
                            and_then (get_unsigned (ucast cmd16) 7 9) (\<lambda>x. get_reg (x + 8)),
                            Inr (to_string_int value)])
           (decoded_of ''c.andi'' False))
       else if sub = ''11'' then
         and_then (collect [and_then (get_unsigned (ucast cmd16) 7 9) (\<lambda>x. get_reg (x + 8)),
                            and_then (get_unsigned (ucast cmd16) 7 9) (\<lambda>x. get_reg (x + 8)),
                            and_then (get_unsigned (ucast cmd16) 2 4) (\<lambda>x. get_reg (x + 8))])
           (\<lambda>as.
         and_then (get_segment cmd16 12 12) (\<lambda>hi.
         and_then (get_segment cmd16 5 6) (\<lambda>lo.
           let type2 = hi @ lo in
           decoded_of (if type2 = ''000'' then ''c.sub''
                       else if type2 = ''001'' then ''c.xor''
                       else if type2 = ''010'' then ''c.or''
                       else if type2 = ''011'' then ''c.and''
                       else if type2 = ''100'' then ''c.subw''
                       else if type2 = ''101'' then ''c.addw''
                       else []) False as)))
       else Inr no_cmd)"

definition quadrant1 :: "tags \<Rightarrow> u32 \<Rightarrow> u16 \<Rightarrow> error + decoded" where
  "quadrant1 tags adr cmd16 =
     and_then (get_segment cmd16 2 15) (\<lambda>body.
       if body = replicate 14 CHR ''0'' then decoded_of ''c.nop'' False []
       else
         and_then (get_segment cmd16 13 15) (\<lambda>ty.
           if ty = ''000'' then
             and_then (collect [and_then (get_unsigned (ucast cmd16) 7 11) get_reg,
                                and_then (get_unsigned (ucast cmd16) 7 11) get_reg,
                                and_then (ci_imm cmd16) (\<lambda>value. Inr (to_string_int value))])
               (decoded_of ''c.addi'' False)
           else if ty = ''001'' then
             and_then (cj_offset cmd16) (\<lambda>value.
               decoded_of ''c.jal'' False [resolve tags adr value])
           else if ty = ''010'' then
             and_then (collect [and_then (get_unsigned (ucast cmd16) 7 11) get_reg,
                                and_then (ci_imm cmd16) (\<lambda>value. Inr (to_string_int value))])
               (decoded_of ''c.li'' False)
           else if ty = ''011'' then
             and_then (get_unsigned (ucast cmd16) 7 11) (\<lambda>rd.
               if rd = 2 then
                 and_then (sum_of [shl (get_unsigned (ucast cmd16) 12 12) 9,
                                   shl (get_unsigned (ucast cmd16) 6 6) 4,
                                   shl (get_unsigned (ucast cmd16) 5 5) 6,
                                   shl (get_unsigned (ucast cmd16) 3 4) 7,
                                   shl (get_unsigned (ucast cmd16) 2 2) 5]) (\<lambda>uvalue.
                 and_then (get_signed uvalue 0 9) (\<lambda>value.
                 and_then (collect [get_reg 2, get_reg 2, Inr (to_string_int value)])
                   (decoded_of ''c.addi16sp'' False)))
               else
                 and_then (sum_of [shl (get_unsigned (ucast cmd16) 12 12) 17,
                                   shl (get_unsigned (ucast cmd16) 2 6) 12]) (\<lambda>uvalue.
                 and_then (get_signed uvalue 0 17) (\<lambda>value.
                 and_then (collect [and_then (get_unsigned (ucast cmd16) 7 11) get_reg,
                                    Inr (to_string_int value)])
                   (decoded_of ''c.lui'' False))))
           else if ty = ''100'' then quadrant1_arith cmd16
           else if ty = ''101'' then
             and_then (cj_offset cmd16) (\<lambda>value.
               decoded_of ''c.j'' False [resolve tags adr value])
           else if ty = ''110'' \<or> ty = ''111'' then
             and_then (and_then (get_unsigned (ucast cmd16) 7 9) (\<lambda>x. get_reg (x + 8))) (\<lambda>rs1.
             and_then (cb_offset cmd16) (\<lambda>value.
               decoded_of (if ty = ''110'' then ''c.beqz'' else ''c.bnez'') False
                 [rs1, resolve tags adr value]))
           else Inr no_cmd))"

text \<open>Quadrant 2: \<^verbatim>\<open>get_segment(cmd16, 0, 1) == "10"\<close>, lines 462 to 559.\<close>

definition quadrant2 :: "u16 \<Rightarrow> error + decoded" where
  "quadrant2 cmd16 =
     and_then (get_segment cmd16 13 15) (\<lambda>ty.
       if ty = ''000'' then
         and_then (ci_uimm cmd16) (\<lambda>uvalue.
         and_then (collect [and_then (get_unsigned (ucast cmd16) 7 11) get_reg,
                            and_then (get_unsigned (ucast cmd16) 7 11) get_reg,
                            Inr (to_string_u32 uvalue)])
           (decoded_of ''c.slli'' False))
       else if ty = ''001'' then
         and_then (sum_of [shl (get_unsigned (ucast cmd16) 12 12) 5,
                           shl (get_unsigned (ucast cmd16) 5 6) 3,
                           shl (get_unsigned (ucast cmd16) 2 4) 6]) (\<lambda>uvalue.
         and_then (collect [and_then (get_unsigned (ucast cmd16) 7 11) get_reg,
                            Inr (to_string_u32 uvalue),
                            get_reg 2])
           (decoded_of ''c.fldsp'' True))
       else if ty = ''010'' then
         and_then (sum_of [shl (get_unsigned (ucast cmd16) 12 12) 5,
                           shl (get_unsigned (ucast cmd16) 4 6) 2,
                           shl (get_unsigned (ucast cmd16) 2 3) 6]) (\<lambda>uvalue.
         and_then (collect [and_then (get_unsigned (ucast cmd16) 7 11) get_reg,
                            Inr (to_string_u32 uvalue),
                            get_reg 2])
           (decoded_of ''c.lwsp'' True))
       else if ty = ''011'' then
         and_then (sum_of [shl (get_unsigned (ucast cmd16) 12 12) 5,
                           shl (get_unsigned (ucast cmd16) 4 6) 2,
                           shl (get_unsigned (ucast cmd16) 2 3) 6]) (\<lambda>uvalue.
         and_then (collect [and_then (get_unsigned (ucast cmd16) 7 11) get_reg,
                            Inr (to_string_u32 uvalue),
                            get_reg 2])
           (decoded_of ''c.flwsp'' True))
       else if ty = ''100'' then
         and_then (get_segment cmd16 2 6) (\<lambda>rs2.
           if rs2 \<noteq> ''00000'' then
             and_then (get_segment cmd16 12 12) (\<lambda>b12.
               if b12 = ''1'' then
                 and_then (collect [and_then (get_unsigned (ucast cmd16) 7 11) get_reg,
                                    and_then (get_unsigned (ucast cmd16) 7 11) get_reg,
                                    and_then (get_unsigned (ucast cmd16) 2 6) get_reg])
                   (decoded_of ''c.add'' False)
               else
                 and_then (collect [and_then (get_unsigned (ucast cmd16) 7 11) get_reg,
                                    and_then (get_unsigned (ucast cmd16) 2 6) get_reg])
                   (decoded_of ''c.mv'' False))
           else
             and_then (get_segment cmd16 7 15) (\<lambda>top.
               if top = ''100100000'' then decoded_of ''c.ebreak'' False []
               else
                 and_then (collect [and_then (get_unsigned (ucast cmd16) 7 11) get_reg])
                   (\<lambda>as.
                 and_then (get_segment cmd16 12 12) (\<lambda>b12.
                   decoded_of (if b12 = ''0'' then ''c.jr'' else ''c.jalr'') False as))))
       else if ty = ''101'' then
         and_then (sum_of [shl (get_unsigned (ucast cmd16) 10 12) 3,
                           shl (get_unsigned (ucast cmd16) 7 9) 6]) (\<lambda>uvalue.
         and_then (collect [and_then (get_unsigned (ucast cmd16) 2 6) get_reg,
                            Inr (to_string_u32 uvalue),
                            get_reg 2])
           (decoded_of ''c.fsdsp'' True))
       else
         and_then (sum_of [shl (get_unsigned (ucast cmd16) 9 12) 2,
                           shl (get_unsigned (ucast cmd16) 7 8) 6]) (\<lambda>uvalue.
         and_then (collect [and_then (get_unsigned (ucast cmd16) 2 6) get_reg,
                            Inr (to_string_u32 uvalue),
                            get_reg 2])
           (decoded_of (if ty = ''110'' then ''c.swsp'' else ''c.fswsp'') True)))"

section \<open>Reading the input stream\<close>

text \<open>
  The input file is its list of bytes and the stream position a natural number.
  \<^verbatim>\<open>in.read\<close> of a two-byte object on the little-endian host; a read that does not get
  both bytes raises \<^verbatim>\<open>std::ios_base::failure\<close>. \<^verbatim>\<open>get_cmd32\<close> reads the next half-word
  and puts it above the one already read: \<^verbatim>\<open>(cmd16 << 16) | cmd32\<close>.
\<close>

definition read_u16 :: "u8 list \<Rightarrow> nat \<Rightarrow> error + (u16 \<times> nat)" where
  "read_u16 file pos =
     (if pos + 2 \<le> length file
      then Inr (ucast (file ! pos) OR push_bit 8 (ucast (file ! (pos + 1))), pos + 2)
      else Inl IOFailure)"

definition get_cmd32 :: "u8 list \<Rightarrow> nat \<Rightarrow> u16 \<Rightarrow> error + (u32 \<times> nat)" where
  "get_cmd32 file pos cmd16 =
     and_then (read_u16 file pos) (\<lambda>(hi, pos').
       Inr (push_bit 16 (ucast hi) OR ucast cmd16, pos'))"

section \<open>Base (32-bit) decoder\<close>

text \<open>
  One definition for each opcode case of \<^verbatim>\<open>parse_text\<close> (lines 560 to 757), applied to
  the word that \<^verbatim>\<open>get_cmd32\<close> returned. \<open>u_imm\<close> is the expression
  \<^verbatim>\<open>get_signed((get_unsigned(cmd32, 12, 31) << 12), 0, 31)\<close> of lui and auipc,
  \<open>jal_offset\<close> and \<open>branch_offset\<close> the displacements of jal and of the branches.
\<close>

definition u_imm :: "u32 \<Rightarrow> error + int" where
  "u_imm cmd32 =
     and_then (shl (get_unsigned cmd32 12 31) 12) (\<lambda>uvalue. get_signed uvalue 0 31)"

definition jal_offset :: "u32 \<Rightarrow> error + int" where
  "jal_offset cmd32 =
     and_then (sum_of [shl (get_unsigned cmd32 31 31) 20,
                       shl (get_unsigned cmd32 21 30) 1,
                       shl (get_unsigned cmd32 20 20) 11,
                       shl (get_unsigned cmd32 12 19) 12])
       (\<lambda>uvalue. get_signed uvalue 0 20)"

definition branch_offset :: "u32 \<Rightarrow> error + int" where
  "branch_offset cmd32 =
     and_then (sum_of [shl (get_unsigned cmd32 31 31) 12,
                       shl (get_unsigned cmd32 25 30) 5,
                       shl (get_unsigned cmd32 8 11) 1,
                       shl (get_unsigned cmd32 7 7) 11])
       (\<lambda>uvalue. get_signed uvalue 0 12)"

definition op_lui :: "u32 \<Rightarrow> error + decoded" where
  "op_lui cmd32 =
     and_then (collect [and_then (get_unsigned cmd32 7 11) get_reg,
                        and_then (u_imm cmd32) (\<lambda>value. Inr (to_string_int value))])
       (decoded_of ''lui'' False)"

definition op_auipc :: "u32 \<Rightarrow> error + decoded" where
  "op_auipc cmd32 =
     and_then (u_imm cmd32) (\<lambda>value.
     and_then (collect [and_then (get_unsigned cmd32 7 11) get_reg,
                        Inr (to_string_int value)])
       (decoded_of ''auipc'' False))"

definition op_imm :: "u32 \<Rightarrow> error + decoded" where
  "op_imm cmd32 =
     and_then (get_segment cmd32 12 14) (\<lambda>ty.
       if ty \<noteq> ''001'' \<and> ty \<noteq> ''101'' then
         and_then (collect [and_then (get_unsigned cmd32 7 11) get_reg,
                            and_then (get_unsigned cmd32 15 19) get_reg,
                            and_then (get_unsigned cmd32 20 31) (\<lambda>uvalue.
                            and_then (get_signed uvalue 0 11) (\<lambda>value.
                              Inr (to_string_int value)))])
           (decoded_of (if ty = ''000'' then ''addi''
                        else if ty = ''010'' then ''slti''
                        else if ty = ''011'' then ''sltiu''
                        else if ty = ''100'' then ''xori''
                        else if ty = ''110'' then ''ori''
                        else if ty = ''111'' then ''andi''
                        else []) False)
       else
         and_then (collect [and_then (get_unsigned cmd32 7 11) get_reg,
                            and_then (get_unsigned cmd32 15 19) get_reg,
                            and_then (get_unsigned cmd32 20 24) (\<lambda>value.
                              Inr (to_string_u32 value))])
           (\<lambda>as.
             if ty = ''001'' then decoded_of ''slli'' False as
             else
               and_then (get_segment cmd32 30 30) (\<lambda>b30.
                 decoded_of (if b30 = ''0'' then ''srli'' else ''srai'') False as)))"

definition op_reg :: "u32 \<Rightarrow> error + decoded" where
  "op_reg cmd32 =
     and_then (get_segment cmd32 25 26) (\<lambda>funct2.
       if funct2 = ''00'' then
         and_then (get_segment cmd32 27 31) (\<lambda>hi.
         and_then (get_segment cmd32 12 14) (\<lambda>lo.
           let ty = hi @ lo in
           and_then (collect [and_then (get_unsigned cmd32 7 11) get_reg,
                              and_then (get_unsigned cmd32 15 19) get_reg,
                              and_then (get_unsigned cmd32 20 24) get_reg])
             (decoded_of (if ty = ''00000000'' then ''add''
                          else if ty = ''01000000'' then ''sub''
                          else if ty = ''00000001'' then ''sll''
                          else if ty = ''00000010'' then ''slt''
                          else if ty = ''00000011'' then ''sltu''
                          else if ty = ''00000100'' then ''xor''
                          else if ty = ''00000101'' then ''srl''
                          else if ty = ''01000101'' then ''sra''
                          else if ty = ''00000110'' then ''or''
                          else if ty = ''00000111'' then ''and''
                          else []) False)))
       else if funct2 = ''01'' then
         and_then (get_segment cmd32 12 14) (\<lambda>ty.
           and_then (collect [and_then (get_unsigned cmd32 7 11) get_reg,
                              and_then (get_unsigned cmd32 15 19) get_reg,
                              and_then (get_unsigned cmd32 20 24) get_reg])
             (decoded_of (if ty = ''000'' then ''mul''
                          else if ty = ''001'' then ''mulh''
                          else if ty = ''010'' then ''mulhsu''
                          else if ty = ''011'' then ''mulhu''
                          else if ty = ''100'' then ''div''
                          else if ty = ''101'' then ''divu''
                          else if ty = ''110'' then ''rem''
                          else if ty = ''111'' then ''remu''
                          else []) False))
       else Inr no_cmd)"

definition op_load :: "u32 \<Rightarrow> error + decoded" where
  "op_load cmd32 =
     and_then (get_segment cmd32 12 14) (\<lambda>ty.
       and_then (collect [and_then (get_unsigned cmd32 7 11) get_reg,
                          and_then (get_signed cmd32 20 31) (\<lambda>value. Inr (to_string_int value)),
                          and_then (get_unsigned cmd32 15 19) get_reg])
         (decoded_of (if ty = ''000'' then ''lb''
                      else if ty = ''001'' then ''lh''
                      else if ty = ''010'' then ''lw''
                      else if ty = ''100'' then ''lbu''
                      else if ty = ''101'' then ''lhu''
                      else []) True))"

definition op_store :: "u32 \<Rightarrow> error + decoded" where
  "op_store cmd32 =
     and_then (get_segment cmd32 12 14) (\<lambda>ty.
       and_then (collect [and_then (get_unsigned cmd32 20 24) get_reg,
                          and_then (sum_of [shl (get_unsigned cmd32 25 31) 5,
                                            get_unsigned cmd32 7 11]) (\<lambda>uvalue.
                          and_then (get_signed uvalue 0 11) (\<lambda>value.
                            Inr (to_string_int value))),
                          and_then (get_unsigned cmd32 15 19) get_reg])
         (decoded_of (if ty = ''000'' then ''sb''
                      else if ty = ''001'' then ''sh''
                      else if ty = ''010'' then ''sw''
                      else []) True))"

text \<open>
  jal names its destination register by \<^verbatim>\<open>get_reg(get_signed(cmd32, 7, 11))\<close>: the
  \<^verbatim>\<open>int\<close> is converted to the \<^verbatim>\<open>std::uint32_t\<close> parameter of \<^verbatim>\<open>get_reg\<close>.
\<close>

definition op_jal :: "tags \<Rightarrow> u32 \<Rightarrow> u32 \<Rightarrow> error + decoded" where
  "op_jal tags adr cmd32 =
     and_then (and_then (get_signed cmd32 7 11) (\<lambda>rd. get_reg (word_of_int rd))) (\<lambda>rd.
     and_then (jal_offset cmd32) (\<lambda>value.
       decoded_of ''jal'' False [rd, resolve tags adr value]))"

definition op_jalr :: "u32 \<Rightarrow> error + decoded" where
  "op_jalr cmd32 =
     and_then (collect [and_then (get_unsigned cmd32 7 11) get_reg,
                        and_then (get_unsigned cmd32 15 19) get_reg]) (\<lambda>as.
     and_then (get_unsigned cmd32 20 31) (\<lambda>uvalue.
     and_then (get_signed uvalue 0 11) (\<lambda>value.
       decoded_of ''jalr'' False (as @ [to_string_int value]))))"

definition op_branch :: "tags \<Rightarrow> u32 \<Rightarrow> u32 \<Rightarrow> error + decoded" where
  "op_branch tags adr cmd32 =
     and_then (collect [and_then (get_unsigned cmd32 15 19) get_reg,
                        and_then (get_unsigned cmd32 20 24) get_reg]) (\<lambda>as.
     and_then (get_segment cmd32 12 14) (\<lambda>ty.
     and_then (branch_offset cmd32) (\<lambda>value.
       decoded_of (if ty = ''000'' then ''beq''
                   else if ty = ''001'' then ''bne''
                   else if ty = ''100'' then ''blt''
                   else if ty = ''101'' then ''bge''
                   else if ty = ''110'' then ''bltu''
                   else if ty = ''111'' then ''bgeu''
                   else []) False (as @ [resolve tags adr value]))))"

section \<open>One instruction: dispatch on the first half-word\<close>

text \<open>
  The body of the loop of \<^verbatim>\<open>parse_text\<close> up to line 757: read \<^verbatim>\<open>cmd16\<close>, then the
  chain of \<^verbatim>\<open>if\<close>/\<^verbatim>\<open>else if\<close> on \<^verbatim>\<open>get_segment(cmd16, 0, 1)\<close> and
  \<^verbatim>\<open>get_segment(cmd16, 0, 6)\<close>. Only the nine opcode cases call \<^verbatim>\<open>get_cmd32\<close>; when no
  case applies nothing more is read. The result is the decoded instruction and the
  stream position after it.
\<close>

definition base32 ::
  "u8 list \<Rightarrow> nat \<Rightarrow> u16 \<Rightarrow> (u32 \<Rightarrow> error + decoded) \<Rightarrow> error + (decoded \<times> nat)" where
  "base32 file pos cmd16 dec =
     and_then (get_cmd32 file pos cmd16) (\<lambda>(cmd32, pos').
     and_then (dec cmd32) (\<lambda>d. Inr (d, pos')))"

definition decode_cmd :: "tags \<Rightarrow> u8 list \<Rightarrow> u32 \<Rightarrow> nat \<Rightarrow> error + (decoded \<times> nat)" where
  "decode_cmd tags file adr pos =
     and_then (read_u16 file pos) (\<lambda>(cmd16, pos1).
     and_then (get_segment cmd16 0 1) (\<lambda>quadrant.
       if quadrant = ''00'' then and_then (quadrant0 cmd16) (\<lambda>d. Inr (d, pos1))
       else if quadrant = ''01'' then and_then (quadrant1 tags adr cmd16) (\<lambda>d. Inr (d, pos1))
       else if quadrant = ''10'' then and_then (quadrant2 cmd16) (\<lambda>d. Inr (d, pos1))
       else
         and_then (get_segment cmd16 0 6) (\<lambda>opcode.
           if opcode = ''0110111'' then base32 file pos1 cmd16 op_lui
           else if opcode = ''0010111'' then base32 file pos1 cmd16 op_auipc
           else if opcode = ''0010011'' then base32 file pos1 cmd16 op_imm
           else if opcode = ''0110011'' then base32 file pos1 cmd16 op_reg
           else if opcode = ''0000011'' then base32 file pos1 cmd16 op_load
           else if opcode = ''0100011'' then base32 file pos1 cmd16 op_store
           else if opcode = ''1101111'' then base32 file pos1 cmd16 (op_jal tags adr)
           else if opcode = ''1100111'' then base32 file pos1 cmd16 op_jalr
           else if opcode = ''1100011'' then base32 file pos1 cmd16 (op_branch tags adr)
           else Inr (no_cmd, pos1))))"

section \<open>Emitter\<close>

text \<open>
  \<^verbatim>\<open>sprintf\<close> into a buffer of \<open>n\<close> bytes: the text and its terminating zero must
  fit. The text itself is put together by the caller from the conversions above.
\<close>

definition MAX_LENGTH :: nat where
  "MAX_LENGTH = 10000"

definition sprintf :: "nat \<Rightarrow> string \<Rightarrow> error + string" where
  "sprintf n s = (if length s < n then Inr s else Inl UndefinedBehaviour)"

text \<open>
  The start of a line: \<^verbatim>\<open>"%08x"\<close> and 13 spaces when the tag is empty,
  \<^verbatim>\<open>"%08x %10s: "\<close> otherwise.
\<close>

definition print_title :: "u32 \<Rightarrow> string \<Rightarrow> error + string" where
  "print_title adr tag =
     (if tag = [] then
        and_then (sprintf 25 (pad_left 8 CHR ''0'' (hex_lower (unat adr)))) (\<lambda>t.
          Inr (t @ replicate 13 CHR '' ''))
      else
        sprintf MAX_LENGTH
          (pad_left 8 CHR ''0'' (hex_lower (unat adr)) @ '' '' @ pad_left 10 CHR '' '' tag @ '': ''))"

text \<open>
  The table \<^verbatim>\<open>print_format[is_load_store][args.size() - 1]\<close> applied to the arguments,
  and the \<^verbatim>\<open>default\<close> case of the \<^verbatim>\<open>switch\<close> on \<^verbatim>\<open>args.size()\<close>.
\<close>

definition print_args :: "bool \<Rightarrow> string list \<Rightarrow> error + string" where
  "print_args ls as =
     (case as of
        [a0] \<Rightarrow>
          sprintf MAX_LENGTH
            (if ls then a0 @ ''()'' @ [newline] else a0 @ [newline])
      | [a0, a1] \<Rightarrow>
          sprintf MAX_LENGTH
            (if ls then a0 @ ''('' @ a1 @ '')'' @ [newline]
             else a0 @ '' '' @ a1 @ [newline])
      | [a0, a1, a2] \<Rightarrow>
          sprintf MAX_LENGTH
            (if ls then a0 @ '' '' @ a1 @ ''('' @ a2 @ '')'' @ [newline]
             else a0 @ '' '' @ a1 @ '', '' @ a2 @ [newline])
      | [a0, a1, a2, a3] \<Rightarrow>
          sprintf MAX_LENGTH
            (if ls then a0 @ '' '' @ a1 @ '', '' @ a2 @ ''('' @ a3 @ '')'' @ [newline]
             else a0 @ '' '' @ a1 @ '', '' @ a2 @ '', '' @ a3 @ [newline])
      | _ \<Rightarrow> Inl (InvalidArgument ''wrong number of arguments for print_cmd function''))"

definition print_cmd :: "u32 \<Rightarrow> string \<Rightarrow> string list \<Rightarrow> bool \<Rightarrow> error + string" where
  "print_cmd adr tag as ls =
     and_then (print_title adr tag) (\<lambda>t.
     and_then (print_args ls as) (\<lambda>b. Inr (t @ b)))"

section \<open>Driver loop\<close>

text \<open>
  One iteration of the loop of \<^verbatim>\<open>parse_text\<close>: the address
  \<^verbatim>\<open>static_cast<std::uint32_t>(in.tellg()) - text_offset\<close>, the tag at that address
  (empty when there is none), the instruction, and the line written: the placeholder
  when \<^verbatim>\<open>cmd_name\<close> is empty, the emitter's line for \<^verbatim>\<open>cmd_name\<close> put in front of
  \<^verbatim>\<open>args\<close> otherwise. The result is the address, the text written and the new
  stream position.
\<close>

definition parse_text_iter ::
  "tags \<Rightarrow> u8 list \<Rightarrow> u32 \<Rightarrow> nat \<Rightarrow> error + (u32 \<times> string \<times> nat)" where
  "parse_text_iter tags file text_offset pos =
     (let adr = word_of_nat pos - text_offset;
          tag = (case tags adr of Some name \<Rightarrow> name | None \<Rightarrow> [])
      in and_then (decode_cmd tags file adr pos) (\<lambda>(d, pos').
           if cmd_name d = [] then Inr (adr, ''unknown_command'' @ [newline], pos')
           else
             and_then (print_cmd adr tag (cmd_name d # args d) (is_load_store d)) (\<lambda>line.
               Inr (adr, line, pos'))))"

section \<open>The symbol table\<close>

text \<open>
  The structures of \<^verbatim>\<open>src/include/elf_parser.h\<close> that the symbol table code reads, and
  the section types. The type constants are \<^verbatim>\<open>int\<close> in the source and are compared with
  the \<^verbatim>\<open>std::uint32_t\<close> field \<^verbatim>\<open>sh_type\<close>, hence as unsigned numbers.
\<close>

record Elf32_section_header =
  sh_name :: u32
  sh_type :: u32
  sh_flags :: u32
  sh_addr :: u32
  sh_offset :: u32
  sh_size :: u32
  sh_link :: u32
  sh_info :: u32
  sh_addralign :: u32
  sh_entsize :: u32

record Elf32_Sym =
  st_name :: u32
  st_value :: u32
  st_size :: u32
  st_info :: u8
  st_other :: u8
  st_shndx :: u16

definition TEXT_TYPE :: u32 where
  "TEXT_TYPE = 1"

definition SYMTAB_TYPE :: u32 where
  "SYMTAB_TYPE = 2"

definition STRTAB_TYPE :: u32 where
  "STRTAB_TYPE = 3"

definition get_type :: "u32 \<Rightarrow> error + string" where
  "get_type x =
     (let ty = x AND 0xf in
      if ty = 0 then Inr ''NOTYPE''
      else if ty = 1 then Inr ''OBJECT''
      else if ty = 2 then Inr ''FUNC''
      else if ty = 3 then Inr ''SECTION''
      else if ty = 4 then Inr ''FILE''
      else if ty = 5 then Inr ''COMMON''
      else if ty = 6 then Inr ''TLS''
      else if ty = 10 then Inr ''LOOS''
      else if ty = 12 then Inr ''HIOS''
      else if ty = 13 then Inr ''LOPROC''
      else if ty = 15 then Inr ''HIPROC''
      else Inl (InvalidArgument ''unknown type in symtab''))"

definition get_bind :: "u32 \<Rightarrow> error + string" where
  "get_bind x =
     (let bnd = drop_bit 4 x in
      if bnd = 0 then Inr ''LOCAL''
      else if bnd = 1 then Inr ''GLOBAL''
      else if bnd = 2 then Inr ''WEAK''
      else if bnd = 10 then Inr ''LOOS''
      else if bnd = 12 then Inr ''HIOS''
      else if bnd = 13 then Inr ''LOPROC''
      else if bnd = 15 then Inr ''HIPROC''
      else Inl (InvalidArgument ''unknown bind in symtab''))"

definition get_visibility :: "u8 \<Rightarrow> string" where
  "get_visibility x =
     (let visibility = x AND 0x3 in
      if visibility = 0 then ''DEFAULT''
      else if visibility = 1 then ''INTERNAL''
      else if visibility = 2 then ''HIDDEN''
      else ''PROTECTED'')"

definition get_index :: "u16 \<Rightarrow> string" where
  "get_index x =
     (if x = 0 then ''UNDEF''
      else if x = 0xfff1 then ''ABS''
      else if x = 0xff00 then ''LOPROC''
      else if x = 0xff1f then ''HIPROC''
      else if x = 0xff20 then ''LOOS''
      else if x = 0xff3f then ''HIOS''
      else if x = 0xfff2 then ''COMMON''
      else if x = 0xffff then ''XINDEX''
      else to_string_nat (unat x))"

text \<open>
  \<^verbatim>\<open>get_name\<close>: the empty name for offset 0; otherwise the bytes from
  \<^verbatim>\<open>strtab_offset + offset_inside_strtab\<close> (a 32-bit sum) up to the first zero byte,
  read one at a time. Reading past the end of the file raises the stream's failure.
\<close>

function read_cstring :: "u8 list \<Rightarrow> nat \<Rightarrow> error + string" where
  "read_cstring file pos =
     (if pos < length file then
        (if file ! pos = 0 then Inr []
         else and_then (read_cstring file (pos + 1)) (\<lambda>name.
                Inr (char_of (unat (file ! pos)) # name)))
      else Inl IOFailure)"
  by pat_completeness auto
termination
  by (relation "measure (\<lambda>(file, pos). length file - pos)") auto

declare read_cstring.simps [simp del]

definition get_name :: "u8 list \<Rightarrow> u32 \<Rightarrow> u32 \<Rightarrow> error + string" where
  "get_name file offset_inside_strtab strtab_offset =
     (if offset_inside_strtab = 0 then Inr []
      else read_cstring file (unat (strtab_offset + offset_inside_strtab)))"

text \<open>
  \<^verbatim>\<open>find_section\<close>: the index of the first header of the given type, 0 when there is
  none. \<open>section_at\<close> is \<^verbatim>\<open>section_headers[i]\<close>, undefined outside the vector (which
  happens only when the vector is empty).
\<close>

fun find_section_loop :: "Elf32_section_header list \<Rightarrow> u32 \<Rightarrow> nat \<Rightarrow> nat" where
  "find_section_loop [] section_type_id i = 0"
| "find_section_loop (h # hs) section_type_id i =
     (if sh_type h = section_type_id then i else find_section_loop hs section_type_id (i + 1))"

definition find_section :: "Elf32_section_header list \<Rightarrow> u32 \<Rightarrow> nat" where
  "find_section section_headers section_type_id =
     find_section_loop section_headers section_type_id 0"

definition section_at :: "Elf32_section_header list \<Rightarrow> nat \<Rightarrow> error + Elf32_section_header" where
  "section_at section_headers i =
     (if i < length section_headers then Inr (section_headers ! i) else Inl UndefinedBehaviour)"

text \<open>
  Reading symbol \<^verbatim>\<open>id_in_section\<close> of a section: the stream is moved to
  \<^verbatim>\<open>static_cast<int>(s_header.sh_offset + id_in_section * sizeof(Elf32_Sym))\<close>, a
  \<^verbatim>\<open>std::size_t\<close> sum cut to 32 bits and read as signed, and 16 bytes are read into the
  packed little-endian structure. A negative position or a short read fails.
\<close>

definition le16 :: "u8 list \<Rightarrow> nat \<Rightarrow> u16" where
  "le16 file pos = ucast (file ! pos) OR push_bit 8 (ucast (file ! (pos + 1)))"

definition le32 :: "u8 list \<Rightarrow> nat \<Rightarrow> u32" where
  "le32 file pos =
     ucast (file ! pos) OR push_bit 8 (ucast (file ! (pos + 1)))
       OR push_bit 16 (ucast (file ! (pos + 2))) OR push_bit 24 (ucast (file ! (pos + 3)))"

definition sym_pos :: "Elf32_section_header \<Rightarrow> nat \<Rightarrow> int" where
  "sym_pos s_header id_in_section =
     sint (word_of_nat (unat (sh_offset s_header) + id_in_section * 16) :: u32)"

definition read_sym :: "u8 list \<Rightarrow> int \<Rightarrow> error + Elf32_Sym" where
  "read_sym file p =
     (if p < 0 \<or> length file < nat p + 16 then Inl IOFailure
      else Inr \<lparr>st_name = le32 file (nat p), st_value = le32 file (nat p + 4),
                st_size = le32 file (nat p + 8), st_info = file ! (nat p + 12),
                st_other = file ! (nat p + 13), st_shndx = le16 file (nat p + 14)\<rparr>)"

definition sym_count :: "Elf32_section_header \<Rightarrow> nat" where
  "sym_count s_header = unat (sh_size s_header) div 16"

text \<open>
  \<^verbatim>\<open>calc_tags\<close>: for every section of type \<^verbatim>\<open>SYMTAB_TYPE\<close>, in order, and every symbol
  in it, in order, \<^verbatim>\<open>tags[sym.st_value] = name\<close> unless the name is empty.
\<close>

fun tags_of_symbols ::
  "u8 list \<Rightarrow> u32 \<Rightarrow> Elf32_section_header \<Rightarrow> nat list \<Rightarrow> tags \<Rightarrow> error + tags" where
  "tags_of_symbols file strtab_offset s_header [] tags = Inr tags"
| "tags_of_symbols file strtab_offset s_header (id_in_section # ids) tags =
     and_then (read_sym file (sym_pos s_header id_in_section)) (\<lambda>sym.
     and_then (get_name file (st_name sym) strtab_offset) (\<lambda>name.
       tags_of_symbols file strtab_offset s_header ids
         (if name \<noteq> [] then tags(st_value sym \<mapsto> name) else tags)))"

fun tags_of_sections ::
  "u8 list \<Rightarrow> u32 \<Rightarrow> Elf32_section_header list \<Rightarrow> tags \<Rightarrow> error + tags" where
  "tags_of_sections file strtab_offset [] tags = Inr tags"
| "tags_of_sections file strtab_offset (s_header # hs) tags =
     (if sh_type s_header = SYMTAB_TYPE then
        and_then (tags_of_symbols file strtab_offset s_header [0..<sym_count s_header] tags)
          (tags_of_sections file strtab_offset hs)
      else tags_of_sections file strtab_offset hs tags)"

definition calc_tags :: "u8 list \<Rightarrow> Elf32_section_header list \<Rightarrow> error + tags" where
  "calc_tags file section_headers =
     and_then (section_at section_headers (find_section section_headers STRTAB_TYPE)) (\<lambda>strtab.
       tags_of_sections file (sh_offset strtab) section_headers Map.empty)"

text \<open>
  \<^verbatim>\<open>parse_symtab\<close>. The header is the result of
  \<^verbatim>\<open>sprintf(buf, "%s %-15s %7s %-8s %-8s %-8s %6s %s\n", "Symbol", "Value", "Size", "Type", "Bind", "Vis", "Index", "Name")\<close>.
  A line is the result of \<^verbatim>\<open>"[%4i] 0x%-15X %5i %-8s %-8s %-8s %6s %s\n"\<close>; \<^verbatim>\<open>%4i\<close>
  prints the index (below \<open>2 ^ 28\<close>) and \<^verbatim>\<open>%5i\<close> prints the \<^verbatim>\<open>std::uint32_t\<close> size
  as a signed number. The order in which the arguments of \<^verbatim>\<open>sprintf\<close> are evaluated is
  not fixed by the language; it decides only which failure is reported when several
  arguments fail. The output is returned with the error that ended the run, if any.
\<close>

definition symtab_header :: string where
  "symtab_header =
     ''Symbol'' @ '' '' @ pad_right 15 CHR '' '' ''Value'' @ '' '' @ pad_left 7 CHR '' '' ''Size''
       @ '' '' @ pad_right 8 CHR '' '' ''Type'' @ '' '' @ pad_right 8 CHR '' '' ''Bind''
       @ '' '' @ pad_right 8 CHR '' '' ''Vis'' @ '' '' @ pad_left 6 CHR '' '' ''Index''
       @ '' '' @ ''Name'' @ [newline]"

definition symtab_line ::
  "nat \<Rightarrow> u32 \<Rightarrow> u32 \<Rightarrow> string \<Rightarrow> string \<Rightarrow> string \<Rightarrow> string \<Rightarrow> string \<Rightarrow> string" where
  "symtab_line idx val sz ty bnd vis ndx name =
     ''['' @ pad_left 4 CHR '' '' (to_string_nat idx) @ ''] 0x''
       @ pad_right 15 CHR '' '' (hex_upper (unat val))
       @ '' '' @ pad_left 5 CHR '' '' (to_string_int (sint sz))
       @ '' '' @ pad_right 8 CHR '' '' ty @ '' '' @ pad_right 8 CHR '' '' bnd
       @ '' '' @ pad_right 8 CHR '' '' vis @ '' '' @ pad_left 6 CHR '' '' ndx
       @ '' '' @ name @ [newline]"

definition symtab_entry ::
  "u8 list \<Rightarrow> u32 \<Rightarrow> Elf32_section_header \<Rightarrow> nat \<Rightarrow> error + string" where
  "symtab_entry file strtab_offset s_header id_in_section =
     and_then (read_sym file (sym_pos s_header id_in_section)) (\<lambda>sym.
     and_then (get_type (ucast (st_info sym))) (\<lambda>ty.
     and_then (get_bind (ucast (st_info sym))) (\<lambda>bnd.
     and_then (get_name file (st_name sym) strtab_offset) (\<lambda>name.
       sprintf MAX_LENGTH
         (symtab_line id_in_section (st_value sym) (st_size sym) ty bnd
            (get_visibility (st_other sym)) (get_index (st_shndx sym)) name)))))"

fun symtab_entries ::
  "u8 list \<Rightarrow> u32 \<Rightarrow> Elf32_section_header \<Rightarrow> nat list \<Rightarrow> string list \<times> error option" where
  "symtab_entries file strtab_offset s_header [] = ([], None)"
| "symtab_entries file strtab_offset s_header (id_in_section # ids) =
     (case symtab_entry file strtab_offset s_header id_in_section of
        Inl e \<Rightarrow> ([], Some e)
      | Inr line \<Rightarrow>
          (case symtab_entries file strtab_offset s_header ids of
             (lines, r) \<Rightarrow> (line # lines, r)))"

fun symtab_sections ::
  "u8 list \<Rightarrow> u32 \<Rightarrow> Elf32_section_header list \<Rightarrow> string list \<times> error option" where
  "symtab_sections file strtab_offset [] = ([], None)"
| "symtab_sections file strtab_offset (s_header # hs) =
     (if sh_type s_header = SYMTAB_TYPE then
        (case symtab_entries file strtab_offset s_header [0..<sym_count s_header] of
           (lines, Some e) \<Rightarrow> (lines, Some e)
         | (lines, None) \<Rightarrow>
             (case symtab_sections file strtab_offset hs of
                (lines', r) \<Rightarrow> (lines @ lines', r)))
      else symtab_sections file strtab_offset hs)"

definition parse_symtab ::
  "u8 list \<Rightarrow> Elf32_section_header list \<Rightarrow> string \<times> error option" where
  "parse_symtab file section_headers =
     (case section_at section_headers (find_section section_headers STRTAB_TYPE) of
        Inl e \<Rightarrow> ([], Some e)
      | Inr strtab \<Rightarrow>
          (case symtab_sections file (sh_offset strtab) section_headers of
             (lines, r) \<Rightarrow> (symtab_header @ concat lines, r)))"

section \<open>Notions used in the statements and proofs\<close>

text \<open>
  \<open>returns P r\<close>: if the computation \<open>r\<close> returns a value, the value satisfies \<open>P\<close>.
  Its rules follow the shape of a computation, one rule for each construct.
\<close>

definition returns :: "('a \<Rightarrow> bool) \<Rightarrow> error + 'a \<Rightarrow> bool" where
  "returns P r = (case r of Inl e \<Rightarrow> True | Inr x \<Rightarrow> P x)"

text \<open>The mnemonics of the jumps and branches whose operand is a resolved target.\<close>

definition target_names :: "string set" where
  "target_names = {''c.j'', ''c.jal'', ''c.beqz'', ''c.bnez'', ''jal'',
                   ''beq'', ''bne'', ''blt'', ''bge'', ''bltu'', ''bgeu''}"

text \<open>Reading a string of hexadecimal digits back as a number.\<close>

definition hex_digit_value :: "char \<Rightarrow> nat" where
  "hex_digit_value c = length (takeWhile (\<lambda>x. x \<noteq> c) ''0123456789abcdef'')"

definition hex_value :: "string \<Rightarrow> nat" where
  "hex_value s = foldl (\<lambda>a c. 16 * a + hex_digit_value c) 0 s"

text \<open>
  The address that a line of the listing carries: none on the placeholder line, the
  number written by its first eight characters on every other line. The emitted
  addresses of a listing are the addresses of its lines, in order.
\<close>

definition line_address :: "string \<Rightarrow> u32 option" where
  "line_address line =
     (if line = ''unknown_command'' @ [newline] then None
      else Some (word_of_nat (hex_value (take 8 line))))"

definition emitted_addresses :: "string list \<Rightarrow> u32 list" where
  "emitted_addresses lines = List.map_filter line_address lines"

section \<open>Sequencing and results\<close>

lemma and_then_Inr [simp]: "and_then (Inr x) k = k x"
  by (simp add: and_then_def)

lemma and_then_Inl [simp]: "and_then (Inl e) k = Inl e"
  by (simp add: and_then_def)

lemma and_then_eq_Inr: "and_then m k = Inr y \<longleftrightarrow> (\<exists>x. m = Inr x \<and> k x = Inr y)"
  by (cases m) simp_all

lemma and_then_eq_Inl:
  "and_then m k = Inl e \<longleftrightarrow> m = Inl e \<or> (\<exists>x. m = Inr x \<and> k x = Inl e)"
  by (cases m) simp_all

lemma returns_Inr [simp]: "returns P (Inr x) \<longleftrightarrow> P x"
  by (simp add: returns_def)

lemma returns_Inl [simp]: "returns P (Inl e)"
  by (simp add: returns_def)

lemma returnsD: "returns P r \<Longrightarrow> r = Inr x \<Longrightarrow> P x"
  by simp

lemma returnsI: "(\<And>x. r = Inr x \<Longrightarrow> P x) \<Longrightarrow> returns P r"
  by (cases r) simp_all

lemma returns_and_then:
  "(\<And>x. m = Inr x \<Longrightarrow> returns P (k x)) \<Longrightarrow> returns P (and_then m k)"
  by (cases m) simp_all

lemma returns_if:
  "(c \<Longrightarrow> returns P a) \<Longrightarrow> (\<not> c \<Longrightarrow> returns P b) \<Longrightarrow> returns P (if c then a else b)"
  by simp

lemma returns_case_prod:
  "(\<And>a b. x = (a, b) \<Longrightarrow> returns P (f a b)) \<Longrightarrow> returns P (case x of (a, b) \<Rightarrow> f a b)"
  by (cases x) simp

lemma returns_mono: "returns P r \<Longrightarrow> (\<And>x. P x \<Longrightarrow> Q x) \<Longrightarrow> returns Q r"
  by (cases r) simp_all

lemma collect_length: "collect ms = Inr xs \<Longrightarrow> length xs = length ms"
  by (induction ms arbitrary: xs) (auto simp: and_then_eq_Inr)

section \<open>The cursor after one instruction\<close>

lemma read_u16_Inr:
  "read_u16 file pos = Inr (w, pos') \<Longrightarrow> pos' = pos + 2 \<and> pos + 2 \<le> length file"
  by (auto simp: read_u16_def split: if_splits)

lemma get_cmd32_Inr:
  "get_cmd32 file pos cmd16 = Inr (w, pos') \<Longrightarrow> pos' = pos + 2 \<and> pos + 2 \<le> length file"
  by (auto simp: get_cmd32_def and_then_eq_Inr dest: read_u16_Inr)

lemma base32_returns:
  "returns (\<lambda>(d, pos'). pos' = pos + 2 \<and> pos + 2 \<le> length file) (base32 file pos cmd16 dec)"
  unfolding base32_def
  by (intro returns_and_then returns_case_prod) (auto dest: get_cmd32_Inr)

lemma decode_cmd_returns_advance:
  "returns (\<lambda>(d, pos'). (pos' = pos + 2 \<or> pos' = pos + 4) \<and> pos' \<le> length file)
     (decode_cmd tags file adr pos)"
  unfolding decode_cmd_def
  apply (intro returns_and_then returns_case_prod returns_if)
  apply (auto dest!: read_u16_Inr intro: returns_mono [OF base32_returns])
  done

lemma decode_cmd_advance:
  "decode_cmd tags file adr pos = Inr (d, pos') \<Longrightarrow>
     (pos' = pos + 2 \<or> pos' = pos + 4) \<and> pos' \<le> length file"
  using decode_cmd_returns_advance [of pos "file" tags adr] by (auto dest: returnsD)

lemma parse_text_iter_advance:
  assumes "parse_text_iter tags file text_offset pos = Inr (adr, line, pos')"
  shows "(pos' = pos + 2 \<or> pos' = pos + 4) \<and> pos' \<le> length file
           \<and> adr = word_of_nat pos - text_offset"
proof -
  from assms obtain d where "decode_cmd tags file (word_of_nat pos - text_offset) pos = Inr (d, pos')"
    and "adr = word_of_nat pos - text_offset"
    by (auto simp: parse_text_iter_def Let_def and_then_eq_Inr split: if_splits)
  then show ?thesis
    by (auto dest: decode_cmd_advance)
qed

text \<open>
  The loop of \<^verbatim>\<open>parse_text\<close>:
  \<^verbatim>\<open>while (static_cast<std::uint32_t>(in.tellg()) - text_offset < text_size)\<close>. It
  returns, for every iteration it completed, the address and the text written, and
  the error that ended the run, if one did. Every completed iteration moves the
  cursor forward inside the file, so the loop ends.
\<close>

function parse_text_loop ::
  "tags \<Rightarrow> u8 list \<Rightarrow> u32 \<Rightarrow> u32 \<Rightarrow> nat \<Rightarrow> (u32 \<times> string) list \<times> error option" where
  "parse_text_loop tags file text_offset text_size pos =
     (if word_of_nat pos - text_offset < text_size then
        (case parse_text_iter tags file text_offset pos of
           Inl e \<Rightarrow> ([], Some e)
         | Inr (adr, line, pos') \<Rightarrow>
             (case parse_text_loop tags file text_offset text_size pos' of
                (entries, r) \<Rightarrow> ((adr, line) # entries, r)))
      else ([], None))"
  by pat_completeness auto
termination
  apply (relation "measure (\<lambda>(tags, file, text_offset, text_size, pos). length file - pos)")
   apply simp
  apply (auto dest!: parse_text_iter_advance)
  done

declare parse_text_loop.simps [simp del]

text \<open>
  \<^verbatim>\<open>parse_text\<close> itself: the first section of type \<^verbatim>\<open>TEXT_TYPE\<close> gives the offset and
  the size of the code, the stream is moved to the offset, and the loop runs.
\<close>

definition parse_text ::
  "u8 list \<Rightarrow> Elf32_section_header list \<Rightarrow> tags \<Rightarrow> (u32 \<times> string) list \<times> error option" where
  "parse_text file section_headers tags =
     (case section_at section_headers (find_section section_headers TEXT_TYPE) of
        Inl e \<Rightarrow> ([], Some e)
      | Inr text \<Rightarrow>
          parse_text_loop tags file (sh_offset text) (sh_size text) (unat (sh_offset text)))"

section \<open>Closed forms of the bit extractor\<close>

lemma size_t_eq: "0 \<le> k \<Longrightarrow> k < 2 ^ 64 \<Longrightarrow> size_t k = nat k"
  by (simp add: size_t_def)

lemma bit_char_eq [simp]:
  "bit_char b = CHR ''1'' \<longleftrightarrow> b" "bit_char b = CHR ''0'' \<longleftrightarrow> \<not> b"
  by (simp_all add: bit_char_def)

lemma take_drop_rev_upt:
  assumes "a \<le> m" "m \<le> N"
  shows "take (m - a) (drop (N - m) (rev [0..<N])) = rev [a..<m]"
proof -
  have "drop (N - m) (rev [0..<N]) = rev (take m [0..<N])"
    using assms by (simp add: drop_rev)
  also have "take m [0..<N] = [0..<m]"
    using assms by (simp add: take_upt)
  finally have "take (m - a) (drop (N - m) (rev [0..<N])) = rev (drop (m - (m - a)) [0..<m])"
    by (simp add: take_rev)
  also have "m - (m - a) = a"
    using assms by simp
  finally show ?thesis
    by simp
qed

text \<open>Within the word, \<^verbatim>\<open>get_segment\<close> lists the bits \<open>r\<close> down to \<open>l\<close>.\<close>

lemma get_segment_eq:
  fixes cmd :: "'a::len word"
  assumes "0 \<le> l" "l \<le> r" "r < int LENGTH('a)" "int LENGTH('a) < 2 ^ 64"
  shows "get_segment cmd l r = Inr (map (\<lambda>i. bit_char (bit cmd i)) (rev [nat l..<nat r + 1]))"
proof -
  have "size_t (int LENGTH('a) - r - 1) = nat (int LENGTH('a) - r - 1)"
    using assms by (intro size_t_eq) simp_all
  then have pos: "size_t (int LENGTH('a) - r - 1) = LENGTH('a) - (nat r + 1)"
    using assms by (simp add: nat_diff_distrib')
  have "size_t (r - l + 1) = nat (r - l + 1)"
    using assms by (intro size_t_eq) simp_all
  then have n: "size_t (r - l + 1) = nat r + 1 - nat l"
    using assms by (simp add: nat_diff_distrib' nat_add_distrib)
  have "take (nat r + 1 - nat l) (drop (LENGTH('a) - (nat r + 1)) (rev [0..<LENGTH('a)]))
          = rev [nat l..<nat r + 1]"
    using assms by (intro take_drop_rev_upt) simp_all
  then have "take (nat r + 1 - nat l)
               (drop (LENGTH('a) - (nat r + 1))
                 (map (\<lambda>i. bit_char (bit cmd i)) (rev [0..<LENGTH('a)])))
          = map (\<lambda>i. bit_char (bit cmd i)) (rev [nat l..<nat r + 1])"
    by (simp only: take_map drop_map)
  then show ?thesis
    unfolding get_segment_def substr_def bitset_to_string_def pos n
    by simp
qed

lemma take_bit_Suc_OR:
  "take_bit (Suc n) (x::'a::len word) =
     (if bit x n then take_bit n x OR push_bit n 1 else take_bit n x)"
  by (rule bit_eqI)
     (auto simp: bit_take_bit_iff bit_or_iff bit_push_bit_iff less_Suc_eq bit_1_iff
                 bit_exp_iff dest: bit_imp_le_length)

lemma take_bit_Suc_OR_int:
  "take_bit (Suc n) (x::int) =
     (if bit x n then take_bit n x OR push_bit n 1 else take_bit n x)"
  by (rule bit_eqI)
     (auto simp: bit_take_bit_iff bit_or_iff bit_push_bit_iff less_Suc_eq bit_1_iff
                 bit_exp_iff)

text \<open>
  The loop of \<^verbatim>\<open>get_unsigned\<close> keeps in \<open>result\<close> the bits \<open>l\<close> to \<open>i - 1\<close> of the
  value, moved down to position 0.
\<close>

lemma get_unsigned_loop_inv:
  "l \<le> i \<Longrightarrow> r < 32 \<Longrightarrow> i \<le> r + 1 \<Longrightarrow> result = take_bit (i - l) (drop_bit l v) \<Longrightarrow>
   get_unsigned_loop v l r i result = Inr (take_bit (r + 1 - l) (drop_bit l v))"
proof (induction v l r i result rule: get_unsigned_loop.induct)
  case (1 v l r i result)
  show ?case
  proof (cases "i \<le> r")
    case False
    with 1(2-) have "i = r + 1" by simp
    with 1(2-) False show ?thesis by (simp add: get_unsigned_loop.simps)
  next
    case True
    with 1(2-) have lt: "\<not> 32 \<le> i" by simp
    have b: "bit (drop_bit l v) (i - l) = bit v i"
      using 1(2) by (simp add: bit_drop_bit_eq)
    have s: "i + 1 - l = Suc (i - l)"
      using 1(2) by simp
    have step: "(if bit v i then result OR push_bit (i - l) 1 else result)
                 = take_bit (i + 1 - l) (drop_bit l v)"
      unfolding s take_bit_Suc_OR [of "i - l" "drop_bit l v"] b 1(5) ..
    have "get_unsigned_loop v l r (i + 1)
            (if bit v i then result OR push_bit (i - l) 1 else result)
          = Inr (take_bit (r + 1 - l) (drop_bit l v))"
      using 1(2-4) True lt step by (intro 1(1)) simp_all
    then show ?thesis
      using True lt by (subst get_unsigned_loop.simps) simp
  qed
qed


lemma get_unsigned_eq:
  assumes "0 \<le> l" "l \<le> r + 1" "0 \<le> r" "r < 32"
  shows "get_unsigned v l r = Inr (take_bit (nat (r + 1 - l)) (drop_bit (nat l) v))"
proof -
  have l: "size_t l = nat l" and r: "size_t r = nat r"
    using assms by (simp_all add: size_t_def)
  have "get_unsigned_loop v (nat l) (nat r) (nat l) 0
          = Inr (take_bit (nat r + 1 - nat l) (drop_bit (nat l) v))"
    using assms by (intro get_unsigned_loop_inv) simp_all
  moreover have "nat r + 1 - nat l = nat (r + 1 - l)"
    using assms by simp
  ultimately show ?thesis
    by (simp add: get_unsigned_def l r)
qed


text \<open>
  The loop of \<^verbatim>\<open>get_signed\<close> keeps in \<open>result\<close> the complemented bits \<open>l\<close> to
  \<open>i - 1\<close> of the value.
\<close>

lemma get_signed_loop_inv:
  "0 \<le> l \<Longrightarrow> l \<le> i \<Longrightarrow> i \<le> r \<Longrightarrow> r < 32 \<Longrightarrow>
   result = take_bit (nat (i - l)) (NOT (drop_bit (nat l) (uint v))) \<Longrightarrow>
   get_signed_loop v l r i result = Inr (take_bit (nat (r - l)) (NOT (drop_bit (nat l) (uint v))))"
proof (induction v l r i result rule: get_signed_loop.induct)
  case (1 v l r i result)
  show ?case
  proof (cases "i < r")
    case False
    with 1(2-) have "i = r" by simp
    with 1(2-) show ?thesis by (subst get_signed_loop.simps) simp
  next
    case True
    with 1(2-) have rng: "\<not> (i < 0 \<or> 32 \<le> i)" by simp
    have b: "bit (NOT (drop_bit (nat l) (uint v))) (nat (i - l)) = (\<not> bit v (nat i))"
      using 1(2,3) rng
      by (auto simp: bit_not_iff bit_drop_bit_eq bit_uint_iff nat_add_distrib [symmetric]
               dest: bit_imp_le_length)
    have s: "nat (i + 1 - l) = Suc (nat (i - l))"
      using 1(2,3) by simp
    have step: "(if \<not> bit v (nat i) then result OR push_bit (nat (i - l)) 1 else result)
                 = take_bit (nat (i + 1 - l)) (NOT (drop_bit (nat l) (uint v)))"
      unfolding s take_bit_Suc_OR_int [of "nat (i - l)"] b 1(6) ..
    have "get_signed_loop v l r (i + 1)
            (if \<not> bit v (nat i) then result OR push_bit (nat (i - l)) 1 else result)
          = Inr (take_bit (nat (r - l)) (NOT (drop_bit (nat l) (uint v))))"
      using 1(2-5) True rng step by (intro 1(1)) simp_all
    then show ?thesis
      using True rng by (subst get_signed_loop.simps) simp
  qed
qed

text \<open>
  Except for the range \<open>l = r = 0\<close> with bit 0 clear, \<^verbatim>\<open>get_signed\<close> is the field
  \<open>l..r\<close> read in two's complement.
\<close>

lemma get_signed_eq:
  assumes "0 \<le> l" "l \<le> r" "r < 32" "r = 0 \<longrightarrow> bit v 0"
  shows "get_signed v l r = Inr (signed_take_bit (nat (r - l)) (drop_bit (nat l) (uint v)))"
proof (cases "bit v (nat r)")
  case True
  have loop: "get_signed_loop v l r l 0
          = Inr (take_bit (nat (r - l)) (NOT (drop_bit (nat l) (uint v))))"
    using assms by (intro get_signed_loop_inv) simp_all
  have b: "bit (drop_bit (nat l) (uint v)) (nat (r - l))"
    using True assms by (simp add: bit_drop_bit_eq bit_uint_iff nat_add_distrib [symmetric])
  have "- take_bit (nat (r - l)) (NOT (drop_bit (nat l) (uint v))) - 1
          = signed_take_bit (nat (r - l)) (drop_bit (nat l) (uint v))"
    using b by (simp add: signed_take_bit_eq_take_bit_minus take_bit_not_eq_mask_diff
                          take_bit_Suc_from_most mask_eq_exp_minus_1)
  with True loop assms show ?thesis
    by (simp add: get_signed_def)
next
  case False
  then have r0: "0 < r" using assms by (cases "r = 0") auto
  have u: "get_unsigned v l (r - 1) = Inr (take_bit (nat (r - l)) (drop_bit (nat l) v))"
    using get_unsigned_eq [of l "r - 1" v] assms r0 by simp
  have b: "\<not> bit (drop_bit (nat l) (uint v)) (nat (r - l))"
    using False assms by (simp add: bit_drop_bit_eq bit_uint_iff nat_add_distrib [symmetric])
  have lt: "take_bit (nat (r - l)) (drop_bit (nat l) (uint v)) < 2 ^ 31"
  proof -
    have "take_bit (nat (r - l)) (drop_bit (nat l) (uint v)) < 2 ^ nat (r - l)"
      by simp
    also have "\<dots> \<le> (2::int) ^ 31"
      using assms by (intro power_increasing) simp_all
    finally show ?thesis .
  qed
  have "sint (take_bit (nat (r - l)) (drop_bit (nat l) v))
          = take_bit (nat (r - l)) (drop_bit (nat l) (uint v))"
  proof -
    have "uint (take_bit (nat (r - l)) (drop_bit (nat l) v))
            = take_bit (nat (r - l)) (drop_bit (nat l) (uint v))"
      by (simp add: unsigned_take_bit_eq unsigned_drop_bit_eq bintr_uint)
    moreover have "signed_take_bit 31 (take_bit (nat (r - l)) (drop_bit (nat l) (uint v)))
            = take_bit (nat (r - l)) (drop_bit (nat l) (uint v))"
    proof (rule signed_take_bit_int_eq_self)
      have "- (2 ^ 31) \<le> (0::int)" by simp
      also have "0 \<le> take_bit (nat (r - l)) (drop_bit (nat l) (uint v))" by simp
      finally show "- (2 ^ 31) \<le> take_bit (nat (r - l)) (drop_bit (nat l) (uint v))" .
      show "take_bit (nat (r - l)) (drop_bit (nat l) (uint v)) < 2 ^ 31" by (rule lt)
    qed
    ultimately show ?thesis
      by (simp add: sint_uint)
  qed
  moreover have "signed_take_bit (nat (r - l)) (drop_bit (nat l) (uint v))
          = take_bit (nat (r - l)) (drop_bit (nat l) (uint v))"
    using b by (simp add: signed_take_bit_eq_take_bit_minus take_bit_Suc_from_most)
  ultimately show ?thesis
    using False assms u by (simp add: get_signed_def)
qed

section \<open>Properties of the bit extractor\<close>

text \<open>
  Sign extension away from the range \<open>l = r = 0\<close>. For every 32-bit value \<open>v\<close> and every
  range \<open>0 \<le> l \<le> r \<le> 31\<close> other than \<open>l = r = 0\<close> with bit 0 of \<open>v\<close> clear:
  \<^verbatim>\<open>get_signed(v, l, r)\<close> is \<^verbatim>\<open>get_unsigned(v, l, r)\<close> minus \<open>2 ^ (r - l + 1)\<close> when bit
  \<open>r\<close> of \<open>v\<close> is set, it is \<^verbatim>\<open>get_unsigned(v, l, r - 1)\<close> when bit \<open>r\<close> is clear, and
  it lies in the interval from \<open>- 2 ^ (r - l)\<close> (included) to \<open>2 ^ (r - l)\<close> (excluded).
\<close>

lemma get_signed_sign_extension:
  assumes "0 \<le> l" "l \<le> r" "r \<le> 31" "\<not> (r = 0 \<and> \<not> bit v 0)"
  shows "(bit v (nat r) \<longrightarrow>
            (\<exists>u. get_unsigned v l r = Inr u \<and> get_signed v l r = Inr (uint u - 2 ^ nat (r - l + 1))))
       \<and> (\<not> bit v (nat r) \<longrightarrow>
            (\<exists>u. get_unsigned v l (r - 1) = Inr u \<and> get_signed v l r = Inr (uint u)))
       \<and> (\<exists>s. get_signed v l r = Inr s \<and> - (2 ^ nat (r - l)) \<le> s \<and> s < 2 ^ nat (r - l))"
proof -
  define n where "n = nat (r - l)"
  define x where "x = drop_bit (nat l) (uint v)"
  have s: "get_signed v l r = Inr (signed_take_bit n x)"
    unfolding n_def x_def using assms by (intro get_signed_eq) auto
  have bx: "bit x n = bit v (nat r)"
    unfolding n_def x_def using assms
    by (auto simp: bit_drop_bit_eq bit_uint_iff nat_add_distrib [symmetric]
             dest: bit_imp_le_length)
  have set: "\<exists>u. get_unsigned v l r = Inr u \<and> get_signed v l r = Inr (uint u - 2 ^ nat (r - l + 1))"
    if "bit v (nat r)"
  proof -
    have "get_unsigned v l r = Inr (take_bit (nat (r + 1 - l)) (drop_bit (nat l) v))"
      using assms by (intro get_unsigned_eq) simp_all
    moreover have "nat (r + 1 - l) = Suc n" "nat (r - l + 1) = Suc n"
      using assms by (simp_all add: n_def)
    moreover have "uint (take_bit (Suc n) (drop_bit (nat l) v)) = take_bit (Suc n) x"
      by (simp add: x_def unsigned_take_bit_eq unsigned_drop_bit_eq bintr_uint)
    moreover have "signed_take_bit n x = take_bit (Suc n) x - 2 ^ Suc n"
      using that bx by (simp add: signed_take_bit_eq_take_bit_minus)
    ultimately show ?thesis
      using s by simp
  qed
  have clear: "\<exists>u. get_unsigned v l (r - 1) = Inr u \<and> get_signed v l r = Inr (uint u)"
    if "\<not> bit v (nat r)"
  proof -
    from that assms have r0: "0 < r" by (cases "r = 0") auto
    have "get_unsigned v l (r - 1) = Inr (take_bit (nat (r - 1 + 1 - l)) (drop_bit (nat l) v))"
      using assms r0 by (intro get_unsigned_eq) simp_all
    moreover have "nat (r - 1 + 1 - l) = n"
      by (simp add: n_def)
    moreover have "uint (take_bit n (drop_bit (nat l) v)) = take_bit n x"
      by (simp add: x_def unsigned_take_bit_eq unsigned_drop_bit_eq bintr_uint)
    moreover have "signed_take_bit n x = take_bit n x"
      using that bx by (simp add: signed_take_bit_eq_take_bit_minus take_bit_Suc_from_most)
    ultimately show ?thesis
      using s by simp
  qed
  have "- (2 ^ n) \<le> signed_take_bit n x" "signed_take_bit n x < 2 ^ n"
    by (simp_all add: signed_take_bit_int_greater_eq_minus_exp signed_take_bit_int_less_exp)
  with s set clear show ?thesis
    by (auto simp: n_def)
qed

text \<open>
  The lemma at the register field of two words: bit 11 set in \<^verbatim>\<open>0x86f\<close>, clear in
  \<^verbatim>\<open>0x1537\<close>.
\<close>

lemma get_signed_sign_extension_example:
  "(0::int) \<le> 7 \<and> (7::int) \<le> 11 \<and> (11::int) \<le> 31 \<and> bit (0x86f :: u32) (nat 11)
     \<and> get_unsigned 0x86f 7 11 = Inr 16 \<and> get_signed 0x86f 7 11 = Inr (16 - 2 ^ 5)
     \<and> get_unsigned 0x1537 7 10 = Inr 10 \<and> get_signed 0x1537 7 11 = Inr 10"
  using get_signed_sign_extension [of 7 11 "0x86f"] get_signed_sign_extension [of 7 11 "0x1537"]
  by (simp add: get_unsigned_eq)


section \<open>Running the decoder on concrete input\<close>

text \<open>Rules with which the simplifier runs the definitions on numerals and literals.\<close>

lemma upt_0_numeral: "[0..<numeral n] = 0 # [Suc 0..<numeral n]"
  by (simp add: upt_conv_Cons)

lemma upt_Suc_0_numeral:
  "[Suc 0..<numeral n] = (if Suc 0 < numeral n then Suc 0 # [2..<numeral n] else [])"
  by (simp add: upt_conv_Cons numeral_2_eq_2)

lemma replicate_numeral: "replicate (numeral k) x = x # replicate (pred_numeral k) x"
  by (simp add: numeral_eq_Suc)

lemmas fmt_eval = to_string_u32_def to_string_int_def to_string_nat_def digits.simps digit_char_def
  upper_digit_char_def hex_lower_def hex_upper_def pad_left_def pad_right_def replicate_numeral
  newline_def

lemmas field_eval = get_segment_eq get_unsigned_eq get_signed_eq shl_def sum_of_def get_reg_def
  decoded_of_def no_cmd_def resolve_def upt_0_numeral upt_Suc_0_numeral

lemmas read_eval = read_u16_def get_cmd32_def base32_def decode_cmd_def

lemmas emit_eval = parse_text_iter_def print_cmd_def print_title_def print_args_def sprintf_def
  MAX_LENGTH_def

section \<open>Dispatch between the 16-bit and the 32-bit path\<close>

text \<open>
  Claim C1 says that every half-word whose two lowest bits are 11 makes the driver read
  two more bytes, so that four bytes are consumed. The code reads the second half-word
  only inside the nine opcode cases it knows. On the bytes \<^verbatim>\<open>73 00 00 00\<close> (ecall, opcode
  1110011) at the start of the section, the first iteration writes the placeholder and
  leaves the cursor at 2; the second iteration decodes the upper half-word \<^verbatim>\<open>0000\<close> as a
  compressed instruction at address 2.
\<close>

theorem unknown_opcode_reads_two_bytes:
  "get_segment (0x0073 :: u16) 0 1 = Inr ''11''
   \<and> parse_text_iter Map.empty [0x73, 0x00, 0x00, 0x00] 0 0
         = Inr (0, ''unknown_command'' @ [newline], 2)
   \<and> parse_text_iter Map.empty [0x73, 0x00, 0x00, 0x00] 0 2
         = Inr (2, ''00000002'' @ replicate 13 CHR '' '' @ ''c.addi4spn s0, sp, 0'' @ [newline], 4)"
  apply (intro conjI)
    apply (simp add: field_eval)
   apply (simp add: parse_text_iter_def read_eval field_eval fmt_eval)
  apply (simp add: parse_text_iter_def read_eval quadrant0_def field_eval fmt_eval)
  apply (simp add: emit_eval fmt_eval)
  done

section \<open>Quadrant 0, funct3 = 011\<close>

text \<open>
  Claim C2 says that a quadrant-0 half-word with funct3 = 011 is rendered as c.flw with
  the offset layout of c.lw. In the code the case \<^verbatim>\<open>type == "011"\<close> is taken by the
  earlier branch shared with c.fld and c.fsd, which names it c.ld and uses the c.fld
  layout; the c.flw branch is never reached. On the half-word \<^verbatim>\<open>0x6040\<close> (funct3 = 011,
  bit 6 set, both registers s0) the code writes \<^verbatim>\<open>c.ld s0, 128(s0)\<close>, where the claim
  asks for \<^verbatim>\<open>c.flw s0, 4(s0)\<close>.
\<close>

theorem quadrant0_funct3_011_is_c_ld:
  "get_segment (0x6040 :: u16) 0 1 = Inr ''00''
   \<and> get_segment (0x6040 :: u16) 13 15 = Inr ''011''
   \<and> decode_cmd Map.empty [0x40, 0x60] 0 0
         = Inr (\<lparr>cmd_name = ''c.ld'', args = [''s0'', ''128'', ''s0''], is_load_store = True\<rparr>, 2)
   \<and> parse_text_iter Map.empty [0x40, 0x60] 0 0
         = Inr (0, ''00000000'' @ replicate 13 CHR '' '' @ ''c.ld s0, 128(s0)'' @ [newline], 2)"
  apply (intro conjI)
     apply (simp add: field_eval)
    apply (simp add: field_eval)
   apply (simp add: read_eval quadrant0_def field_eval fmt_eval)
  apply (simp add: parse_text_iter_def read_eval quadrant0_def field_eval fmt_eval)
  apply (simp add: emit_eval fmt_eval)
  done

section \<open>The destination register of jal\<close>

text \<open>
  Claim C3 says that the first operand of jal is the name of the unsigned field
  \<open>w[11:7]\<close> for every register 0 to 31. The code passes \<^verbatim>\<open>get_signed(cmd32, 7, 11)\<close> to
  \<^verbatim>\<open>get_reg\<close>, so a register from 16 on becomes a negative number, converted to a
  \<^verbatim>\<open>std::uint32_t\<close> above 31. On the bytes \<^verbatim>\<open>6f 08 00 00\<close> (jal with rd = 16, that is
  a6, and offset 0) the run stops with \<^verbatim>\<open>std::invalid_argument("unknown register")\<close>.
\<close>

theorem jal_rd_16_unknown_register:
  "get_segment (0x0000086f :: u32) 0 6 = Inr ''1101111''
   \<and> get_unsigned 0x0000086f 7 11 = Inr 16
   \<and> get_reg 16 = Inr ''a6''
   \<and> get_signed 0x0000086f 7 11 = Inr (- 16)
   \<and> parse_text_iter Map.empty [0x6f, 0x08, 0x00, 0x00] 0 0
         = Inl (InvalidArgument ''unknown register'')"
  apply (intro conjI)
      apply (simp add: field_eval)
     apply (simp add: field_eval)
    apply (simp add: field_eval fmt_eval)
   apply (simp add: field_eval)
  apply (simp add: parse_text_iter_def read_eval op_jal_def field_eval)
  done

section \<open>lui\<close>

lemma get_reg_total: "x < 32 \<Longrightarrow> \<exists>s. get_reg x = Inr s"
  apply (simp add: get_reg_def)
  apply unat_arith
  done

lemma take_bit_5_less: "take_bit 5 (w :: u32) < 32"
proof -
  have "unat (take_bit 5 w) < 2 ^ 5"
    unfolding unsigned_take_bit_eq by (rule take_bit_nat_less_exp)
  then show ?thesis
    by (simp add: word_less_nat_alt)
qed

lemma reg_field_total: "\<exists>s. get_reg (take_bit 5 (w :: u32)) = Inr s"
  by (rule get_reg_total) (rule take_bit_5_less)

lemma opcode_quadrant:
  fixes cmd16 :: u16
  assumes "get_segment cmd16 0 6 = Inr [a, b, c, d, e, CHR ''1'', CHR ''1'']"
  shows "get_segment cmd16 0 1 = Inr ''11''"
  using assms by (simp add: get_segment_eq upt_0_numeral upt_Suc_0_numeral)

lemma u_imm_eq:
  "u_imm cmd32 = Inr (sint (push_bit 12 (take_bit 20 (drop_bit 12 cmd32)) :: u32))"
  by (simp add: u_imm_def shl_def get_unsigned_eq get_signed_eq sint_uint)

lemma op_lui_eq:
  assumes "get_reg (take_bit 5 (drop_bit 7 cmd32)) = Inr rd"
  shows "op_lui cmd32 = Inr \<lparr>cmd_name = ''lui'',
           args = [rd, to_string_int (sint (push_bit 12 (take_bit 20 (drop_bit 12 cmd32)) :: u32))],
           is_load_store = False\<rparr>"
  using assms by (simp add: op_lui_def u_imm_eq get_unsigned_eq decoded_of_def)

text \<open>
  Claim C7, as amended. On the bytes \<^verbatim>\<open>37 15 00 00\<close> the decoder writes
  \<^verbatim>\<open>lui a0, 4096\<close>. More generally, for every instruction whose first half-word has the
  opcode bits 0110111, the decoder reads the second half-word and gives the mnemonic lui
  with two operands: the name of the register \<open>w[11:7]\<close>, and the 20-bit field
  \<open>w[31:12]\<close> shifted left by 12 and read as a signed 32-bit number, in decimal.
\<close>

theorem lui_rendering:
  "parse_text_iter Map.empty [0x37, 0x15, 0x00, 0x00] 0 0
     = Inr (0, ''00000000'' @ replicate 13 CHR '' '' @ ''lui a0, 4096'' @ [newline], 4)
   \<and> (\<forall>tags file adr pos cmd16 pos1 cmd32 pos2.
        read_u16 file pos = Inr (cmd16, pos1) \<and> get_segment cmd16 0 6 = Inr ''0110111''
          \<and> get_cmd32 file pos1 cmd16 = Inr (cmd32, pos2)
        \<longrightarrow> (\<exists>rd. get_reg (take_bit 5 (drop_bit 7 cmd32)) = Inr rd
              \<and> decode_cmd tags file adr pos
                  = Inr (\<lparr>cmd_name = ''lui'',
                          args = [rd, to_string_int
                                        (sint (push_bit 12 (take_bit 20 (drop_bit 12 cmd32)) :: u32))],
                          is_load_store = False\<rparr>, pos2)))"
proof (intro conjI allI impI)
  show "parse_text_iter Map.empty [0x37, 0x15, 0x00, 0x00] 0 0
     = Inr (0, ''00000000'' @ replicate 13 CHR '' '' @ ''lui a0, 4096'' @ [newline], 4)"
    apply (simp add: parse_text_iter_def read_eval op_lui_def u_imm_def field_eval fmt_eval)
    apply (simp add: emit_eval fmt_eval)
    done
next
  fix tags :: tags and bytes :: "u8 list" and adr :: u32 and pos pos1 pos2 :: nat
    and cmd16 :: u16 and cmd32 :: u32
  assume a: "read_u16 bytes pos = Inr (cmd16, pos1) \<and> get_segment cmd16 0 6 = Inr ''0110111''
          \<and> get_cmd32 bytes pos1 cmd16 = Inr (cmd32, pos2)"
  obtain rd where rd: "get_reg (take_bit 5 (drop_bit 7 cmd32)) = Inr rd"
    using reg_field_total by blast
  from a have q: "get_segment cmd16 0 1 = Inr ''11''"
    by (intro opcode_quadrant) simp
  have "decode_cmd tags bytes adr pos
          = Inr (\<lparr>cmd_name = ''lui'',
                   args = [rd, to_string_int
                                 (sint (push_bit 12 (take_bit 20 (drop_bit 12 cmd32)) :: u32))],
                   is_load_store = False\<rparr>, pos2)"
    using a q by (simp add: decode_cmd_def base32_def op_lui_eq [OF rd])
  with rd show "\<exists>rd. get_reg (take_bit 5 (drop_bit 7 cmd32)) = Inr rd
              \<and> decode_cmd tags bytes adr pos
                  = Inr (\<lparr>cmd_name = ''lui'',
                          args = [rd, to_string_int
                                        (sint (push_bit 12 (take_bit 20 (drop_bit 12 cmd32)) :: u32))],
                          is_load_store = False\<rparr>, pos2)"
    by blast
qed

text \<open>
  The theorem at the bytes \<^verbatim>\<open>37 55 00 80\<close>: the field is \<^verbatim>\<open>0x80005\<close>, bit 31 is set and
  the operand is negative.
\<close>

theorem lui_rendering_witness:
  "read_u16 [0x37, 0x55, 0x00, 0x80] 0 = Inr (0x5537, 2)
   \<and> get_segment (0x5537 :: u16) 0 6 = Inr ''0110111''
   \<and> get_cmd32 [0x37, 0x55, 0x00, 0x80] 2 0x5537 = Inr (0x80005537, 4)
   \<and> decode_cmd Map.empty [0x37, 0x55, 0x00, 0x80] 0 0
        = Inr (\<lparr>cmd_name = ''lui'', args = [''a0'', ''-2147463168''], is_load_store = False\<rparr>, 4)"
proof -
  have r: "read_u16 [0x37, 0x55, 0x00, 0x80] 0 = Inr (0x5537, 2)"
    by (simp add: read_u16_def)
  have s: "get_segment (0x5537 :: u16) 0 6 = Inr ''0110111''"
    by (simp add: field_eval)
  have c: "get_cmd32 [0x37, 0x55, 0x00, 0x80] 2 0x5537 = Inr (0x80005537, 4)"
    by (simp add: read_eval)
  have g: "get_reg (take_bit 5 (drop_bit 7 (0x80005537 :: u32))) = Inr ''a0''"
    by (simp add: field_eval fmt_eval)
  have t: "to_string_int (sint (push_bit 12 (take_bit 20 (drop_bit 12 (0x80005537 :: u32))) :: u32))
             = ''-2147463168''"
    by (simp add: fmt_eval)
  from lui_rendering r s c
  have "\<exists>rd. get_reg (take_bit 5 (drop_bit 7 (0x80005537 :: u32))) = Inr rd
          \<and> decode_cmd Map.empty [0x37, 0x55, 0x00, 0x80] 0 0
              = Inr (\<lparr>cmd_name = ''lui'',
                      args = [rd, to_string_int
                                    (sint (push_bit 12 (take_bit 20 (drop_bit 12 (0x80005537 :: u32))) :: u32))],
                      is_load_store = False\<rparr>, 4)"
    by blast
  with g t r s c show ?thesis
    by simp
qed

text \<open>
  Claim C7 as stated fails at its own example: the word of the bytes \<^verbatim>\<open>37 15 00 00\<close> is
  \<^verbatim>\<open>0x00001537\<close>, its field \<open>w[31:12]\<close> is 1, and the operand written is 4096, not 20480.
\<close>

theorem lui_example_counterexample:
  "parse_text_iter Map.empty [0x37, 0x15, 0x00, 0x00] 0 0
     \<noteq> Inr (0, ''00000000'' @ replicate 13 CHR '' '' @ ''lui a0, 20480'' @ [newline], 4)
   \<and> (\<nexists>title. parse_text_iter Map.empty [0x37, 0x15, 0x00, 0x00] 0 0
                  = Inr (0, title @ ''lui a0, 20480'' @ [newline], 4))"
proof -
  have e: "parse_text_iter Map.empty [0x37, 0x15, 0x00, 0x00] 0 0
     = Inr (0, ''00000000'' @ replicate 13 CHR '' '' @ ''lui a0, 4096'' @ [newline], 4)"
    apply (simp add: parse_text_iter_def read_eval op_lui_def u_imm_def field_eval fmt_eval)
    apply (simp add: emit_eval fmt_eval)
    done
  have "''00000000'' @ replicate 13 CHR '' '' @ ''lui a0, 4096'' @ [newline]
          \<noteq> title @ ''lui a0, 20480'' @ [newline]" for title
  proof
    assume "''00000000'' @ replicate 13 CHR '' '' @ ''lui a0, 4096'' @ [newline]
          = title @ ''lui a0, 20480'' @ [newline]"
    then have "rev (''00000000'' @ replicate 13 CHR '' '' @ ''lui a0, 4096'' @ [newline])
          = rev (title @ ''lui a0, 20480'' @ [newline])"
      by (rule arg_cong)
    then show False
      by (simp add: newline_def)
  qed
  with e show ?thesis
    by (auto simp del: replicate_numeral)
qed

section \<open>The number of arguments handed to the emitter\<close>

text \<open>Every case of the decoder fills \<^verbatim>\<open>args\<close> with at most three operands.\<close>

lemma quadrant0_args: "returns (\<lambda>d. length (args d) \<le> 3) (quadrant0 cmd16)"
  unfolding quadrant0_def
  apply (intro returns_and_then returns_if)
  apply (auto simp: decoded_of_def no_cmd_def simp del: collect.simps dest!: collect_length)
  done

lemma quadrant1_arith_args: "returns (\<lambda>d. length (args d) \<le> 3) (quadrant1_arith cmd16)"
  unfolding quadrant1_arith_def
  apply (intro returns_and_then returns_if)
  apply (auto simp: decoded_of_def no_cmd_def Let_def simp del: collect.simps dest!: collect_length)
  done

lemma quadrant1_args: "returns (\<lambda>d. length (args d) \<le> 3) (quadrant1 tags adr cmd16)"
  unfolding quadrant1_def
  apply (intro returns_and_then returns_if quadrant1_arith_args)
  apply (auto simp: decoded_of_def no_cmd_def simp del: collect.simps dest!: collect_length)
  done

lemma quadrant2_args: "returns (\<lambda>d. length (args d) \<le> 3) (quadrant2 cmd16)"
  unfolding quadrant2_def
  apply (intro returns_and_then returns_if)
  apply (auto simp: decoded_of_def no_cmd_def simp del: collect.simps dest!: collect_length)
  done

lemma op_lui_args: "returns (\<lambda>d. length (args d) \<le> 3) (op_lui cmd32)"
  unfolding op_lui_def
  apply (intro returns_and_then returns_if)
  apply (auto simp: decoded_of_def no_cmd_def simp del: collect.simps dest!: collect_length)
  done

lemma op_auipc_args: "returns (\<lambda>d. length (args d) \<le> 3) (op_auipc cmd32)"
  unfolding op_auipc_def
  apply (intro returns_and_then returns_if)
  apply (auto simp: decoded_of_def no_cmd_def simp del: collect.simps dest!: collect_length)
  done

lemma op_imm_args: "returns (\<lambda>d. length (args d) \<le> 3) (op_imm cmd32)"
  unfolding op_imm_def
  apply (intro returns_and_then returns_if)
  apply (auto simp: decoded_of_def no_cmd_def simp del: collect.simps dest!: collect_length)
  done

lemma op_reg_args: "returns (\<lambda>d. length (args d) \<le> 3) (op_reg cmd32)"
  unfolding op_reg_def Let_def
  apply (intro returns_and_then returns_if)
  apply (auto simp: decoded_of_def no_cmd_def simp del: collect.simps dest!: collect_length)
  done

lemma op_load_args: "returns (\<lambda>d. length (args d) \<le> 3) (op_load cmd32)"
  unfolding op_load_def
  apply (intro returns_and_then returns_if)
  apply (auto simp: decoded_of_def no_cmd_def simp del: collect.simps dest!: collect_length)
  done

lemma op_store_args: "returns (\<lambda>d. length (args d) \<le> 3) (op_store cmd32)"
  unfolding op_store_def
  apply (intro returns_and_then returns_if)
  apply (auto simp: decoded_of_def no_cmd_def simp del: collect.simps dest!: collect_length)
  done

lemma op_jal_args: "returns (\<lambda>d. length (args d) \<le> 3) (op_jal tags adr cmd32)"
  unfolding op_jal_def
  apply (intro returns_and_then returns_if)
  apply (auto simp: decoded_of_def no_cmd_def simp del: collect.simps dest!: collect_length)
  done

lemma op_jalr_args: "returns (\<lambda>d. length (args d) \<le> 3) (op_jalr cmd32)"
  unfolding op_jalr_def
  apply (intro returns_and_then returns_if)
  apply (auto simp: decoded_of_def no_cmd_def simp del: collect.simps dest!: collect_length)
  done

lemma op_branch_args: "returns (\<lambda>d. length (args d) \<le> 3) (op_branch tags adr cmd32)"
  unfolding op_branch_def
  apply (intro returns_and_then returns_if)
  apply (auto simp: decoded_of_def no_cmd_def simp del: collect.simps dest!: collect_length)
  done

lemma base32_args:
  assumes "\<And>cmd32. returns (\<lambda>d. length (args d) \<le> 3) (dec cmd32)"
  shows "returns (\<lambda>(d, p). length (args d) \<le> 3) (base32 bytes pos cmd16 dec)"
  unfolding base32_def
  apply (intro returns_and_then returns_case_prod)
  apply (auto dest: returnsD [OF assms])
  done

lemma decode_cmd_args:
  "returns (\<lambda>(d, p). length (args d) \<le> 3) (decode_cmd tags bytes adr pos)"
  unfolding decode_cmd_def
  apply (intro returns_and_then returns_case_prod returns_if base32_args
               op_lui_args op_auipc_args op_imm_args op_reg_args op_load_args op_store_args
               op_jal_args op_jalr_args op_branch_args)
  apply (auto simp: no_cmd_def dest: returnsD [OF quadrant0_args] returnsD [OF quadrant1_args]
                returnsD [OF quadrant2_args])
  done

lemma sprintf_not_invalid: "sprintf n s \<noteq> Inl (InvalidArgument m)"
  by (simp add: sprintf_def)

lemma print_title_not_invalid: "print_title adr tag \<noteq> Inl (InvalidArgument m)"
  by (auto simp: print_title_def sprintf_def and_then_eq_Inl)

lemma print_args_not_invalid:
  "1 \<le> length as \<Longrightarrow> length as \<le> 4 \<Longrightarrow> print_args ls as \<noteq> Inl (InvalidArgument m)"
  by (auto simp: print_args_def sprintf_def split: list.splits)

text \<open>
  Claim C10. For every instruction that the decoder produces with a mnemonic that is
  not empty, the vector handed to the emitter (the mnemonic in front of the operands)
  has at least 1 and at most 4 elements, and the emitter does not fail with
  \<^verbatim>\<open>"wrong number of arguments for print_cmd function"\<close>.
\<close>

theorem emitter_argument_count:
  assumes "decode_cmd tags bytes adr pos = Inr (d, pos')" and "cmd_name d \<noteq> []"
  shows "1 \<le> length (cmd_name d # args d) \<and> length (cmd_name d # args d) \<le> 4
       \<and> print_cmd adr tag (cmd_name d # args d) (is_load_store d)
            \<noteq> Inl (InvalidArgument ''wrong number of arguments for print_cmd function'')"
proof -
  from assms(1) have len: "length (args d) \<le> 3"
    using decode_cmd_args [of tags bytes adr pos] by (auto dest: returnsD)
  then have "print_args (is_load_store d) (cmd_name d # args d)
                \<noteq> Inl (InvalidArgument ''wrong number of arguments for print_cmd function'')"
    by (intro print_args_not_invalid) simp_all
  then have "print_cmd adr tag (cmd_name d # args d) (is_load_store d)
            \<noteq> Inl (InvalidArgument ''wrong number of arguments for print_cmd function'')"
    using print_title_not_invalid [of adr tag]
    by (auto simp: print_cmd_def and_then_eq_Inl)
  with len show ?thesis
    by simp
qed

text \<open>
  The theorem on the bytes \<^verbatim>\<open>63 00 00 00\<close> (beq zero, zero, 0), a vector of four
  elements.
\<close>

theorem emitter_argument_count_witness:
  "decode_cmd Map.empty [0x63, 0x00, 0x00, 0x00] 0 0
     = Inr (\<lparr>cmd_name = ''beq'', args = [''zero'', ''zero'', ''0''], is_load_store = False\<rparr>, 4)
   \<and> ''beq'' \<noteq> []
   \<and> length [''beq'', ''zero'', ''zero'', ''0''] = 4
   \<and> print_cmd 0 [] [''beq'', ''zero'', ''zero'', ''0''] False
        \<noteq> Inl (InvalidArgument ''wrong number of arguments for print_cmd function'')"
proof -
  have d: "decode_cmd Map.empty [0x63, 0x00, 0x00, 0x00] 0 0
     = Inr (\<lparr>cmd_name = ''beq'', args = [''zero'', ''zero'', ''0''], is_load_store = False\<rparr>, 4)"
    by (simp add: read_eval op_branch_def branch_offset_def field_eval fmt_eval)
  from emitter_argument_count [OF d, of "[]"] d show ?thesis
    by simp
qed

section \<open>Label resolution\<close>

lemma quadrant0_names: "returns (\<lambda>d. cmd_name d \<notin> target_names) (quadrant0 cmd16)"
  unfolding quadrant0_def
  apply (intro returns_and_then returns_if)
  apply (auto simp: decoded_of_def no_cmd_def target_names_def simp del: collect.simps)
  done

lemma quadrant1_arith_names: "returns (\<lambda>d. cmd_name d \<notin> target_names) (quadrant1_arith cmd16)"
  unfolding quadrant1_arith_def
  apply (intro returns_and_then returns_if)
  apply (auto simp: decoded_of_def no_cmd_def target_names_def Let_def simp del: collect.simps)
  done

lemma quadrant2_names: "returns (\<lambda>d. cmd_name d \<notin> target_names) (quadrant2 cmd16)"
  unfolding quadrant2_def
  apply (intro returns_and_then returns_if)
  apply (auto simp: decoded_of_def no_cmd_def target_names_def simp del: collect.simps)
  done

lemma quadrant1_targets:
  "returns (\<lambda>d.
      (cmd_name d \<in> target_names \<longrightarrow>
         cmd_name d \<in> {''c.j'', ''c.jal'', ''c.beqz'', ''c.bnez''})
    \<and> (cmd_name d \<in> {''c.j'', ''c.jal''} \<longrightarrow>
         (\<exists>disp. cj_offset cmd16 = Inr disp \<and> args d = [resolve tags adr disp]))
    \<and> (cmd_name d \<in> {''c.beqz'', ''c.bnez''} \<longrightarrow>
         (\<exists>disp rs1. cb_offset cmd16 = Inr disp \<and> args d = [rs1, resolve tags adr disp])))
     (quadrant1 tags adr cmd16)"
  unfolding quadrant1_def
  apply (intro returns_and_then returns_if
               returns_mono [OF quadrant1_arith_names])
  apply (auto simp: decoded_of_def no_cmd_def target_names_def simp del: collect.simps)
  done


lemma op_lui_names: "returns (\<lambda>d. cmd_name d \<notin> target_names) (op_lui cmd32)"
  unfolding op_lui_def
  apply (intro returns_and_then returns_if)
  apply (auto simp: decoded_of_def no_cmd_def target_names_def simp del: collect.simps)
  done

lemma op_auipc_names: "returns (\<lambda>d. cmd_name d \<notin> target_names) (op_auipc cmd32)"
  unfolding op_auipc_def
  apply (intro returns_and_then returns_if)
  apply (auto simp: decoded_of_def no_cmd_def target_names_def simp del: collect.simps)
  done

lemma op_imm_names: "returns (\<lambda>d. cmd_name d \<notin> target_names) (op_imm cmd32)"
  unfolding op_imm_def
  apply (intro returns_and_then returns_if)
  apply (auto simp: decoded_of_def no_cmd_def target_names_def simp del: collect.simps)
  done

lemma op_reg_names: "returns (\<lambda>d. cmd_name d \<notin> target_names) (op_reg cmd32)"
  unfolding op_reg_def Let_def
  apply (intro returns_and_then returns_if)
  apply (auto simp: decoded_of_def no_cmd_def target_names_def simp del: collect.simps)
  done

lemma op_load_names: "returns (\<lambda>d. cmd_name d \<notin> target_names) (op_load cmd32)"
  unfolding op_load_def
  apply (intro returns_and_then returns_if)
  apply (auto simp: decoded_of_def no_cmd_def target_names_def simp del: collect.simps)
  done

lemma op_store_names: "returns (\<lambda>d. cmd_name d \<notin> target_names) (op_store cmd32)"
  unfolding op_store_def
  apply (intro returns_and_then returns_if)
  apply (auto simp: decoded_of_def no_cmd_def target_names_def simp del: collect.simps)
  done

lemma op_jalr_names: "returns (\<lambda>d. cmd_name d \<notin> target_names) (op_jalr cmd32)"
  unfolding op_jalr_def
  apply (intro returns_and_then returns_if)
  apply (auto simp: decoded_of_def no_cmd_def target_names_def simp del: collect.simps)
  done

lemma op_jal_targets:
  "returns (\<lambda>d. cmd_name d = ''jal''
      \<and> (\<exists>disp rd. jal_offset cmd32 = Inr disp \<and> args d = [rd, resolve tags adr disp]))
     (op_jal tags adr cmd32)"
  unfolding op_jal_def
  apply (intro returns_and_then returns_if)
  apply (auto simp: decoded_of_def)
  done

lemma op_branch_targets:
  "returns (\<lambda>d.
      (cmd_name d \<in> target_names \<longrightarrow>
         cmd_name d \<in> {''beq'', ''bne'', ''blt'', ''bge'', ''bltu'', ''bgeu''})
    \<and> (\<exists>disp rs1 rs2. branch_offset cmd32 = Inr disp
          \<and> args d = [rs1, rs2, resolve tags adr disp]))
     (op_branch tags adr cmd32)"
  unfolding op_branch_def
  apply (intro returns_and_then returns_if)
  apply (drule collect_length)
  apply (auto simp: decoded_of_def target_names_def length_Suc_conv numeral_2_eq_2)
  done

lemma base32_returns_word:
  assumes "\<And>cmd32. returns (R cmd32) (dec cmd32)"
  shows "returns (\<lambda>(d, p). \<exists>cmd32. get_cmd32 bytes pos cmd16 = Inr (cmd32, p) \<and> R cmd32 d)
           (base32 bytes pos cmd16 dec)"
  unfolding base32_def
  apply (intro returns_and_then returns_case_prod)
  apply (auto dest: returnsD [OF assms])
  done


lemma base32_names:
  assumes "\<And>cmd32. returns (\<lambda>d. cmd_name d \<notin> target_names) (dec cmd32)"
  shows "returns (\<lambda>(d, p). cmd_name d \<notin> target_names) (base32 bytes pos cmd16 dec)"
  unfolding base32_def
  apply (intro returns_and_then returns_case_prod)
  apply (auto dest: returnsD [OF assms])
  done

lemma decode_cmd_targets:
  "returns (\<lambda>(d, pos').
      (cmd_name d \<in> {''c.j'', ''c.jal''} \<longrightarrow>
         (\<exists>cmd16 pos1 disp. read_u16 bytes pos = Inr (cmd16, pos1)
            \<and> cj_offset cmd16 = Inr disp \<and> args d = [resolve tags adr disp]))
    \<and> (cmd_name d \<in> {''c.beqz'', ''c.bnez''} \<longrightarrow>
         (\<exists>cmd16 pos1 disp rs1. read_u16 bytes pos = Inr (cmd16, pos1)
            \<and> cb_offset cmd16 = Inr disp \<and> args d = [rs1, resolve tags adr disp]))
    \<and> (cmd_name d = ''jal'' \<longrightarrow>
         (\<exists>cmd16 pos1 cmd32 disp rd. read_u16 bytes pos = Inr (cmd16, pos1)
            \<and> get_cmd32 bytes pos1 cmd16 = Inr (cmd32, pos')
            \<and> jal_offset cmd32 = Inr disp \<and> args d = [rd, resolve tags adr disp]))
    \<and> (cmd_name d \<in> {''beq'', ''bne'', ''blt'', ''bge'', ''bltu'', ''bgeu''} \<longrightarrow>
         (\<exists>cmd16 pos1 cmd32 disp rs1 rs2. read_u16 bytes pos = Inr (cmd16, pos1)
            \<and> get_cmd32 bytes pos1 cmd16 = Inr (cmd32, pos')
            \<and> branch_offset cmd32 = Inr disp \<and> args d = [rs1, rs2, resolve tags adr disp])))
     (decode_cmd tags bytes adr pos)"
  unfolding decode_cmd_def
  apply (intro returns_and_then returns_case_prod returns_if
               returns_mono [OF base32_names [OF op_lui_names]]
               returns_mono [OF base32_names [OF op_auipc_names]]
               returns_mono [OF base32_names [OF op_imm_names]]
               returns_mono [OF base32_names [OF op_reg_names]]
               returns_mono [OF base32_names [OF op_load_names]]
               returns_mono [OF base32_names [OF op_store_names]]
               returns_mono [OF base32_names [OF op_jalr_names]]
               returns_mono [OF base32_returns_word [OF op_jal_targets]]
               returns_mono [OF base32_returns_word [OF op_branch_targets]])
              apply (drule returnsD [OF quadrant0_names]; simp add: target_names_def)
             apply (drule returnsD [OF quadrant1_targets]; auto simp: target_names_def)[1]
            apply (drule returnsD [OF quadrant2_names]; simp add: target_names_def)
           apply (auto simp: target_names_def no_cmd_def)
  done


text \<open>
  Where the decoder returns an instruction with one of the mnemonics c.j, c.jal, c.beqz,
  c.bnez, jal, beq, bne, blt, bge, bltu, bgeu, at address \<open>adr\<close>: the displacement
  \<open>disp\<close> is the one the code computes for that format from the instruction's bits, and
  the last operand is the entry of \<open>tags\<close> at \<open>adr + disp\<close> (the sum taken modulo
  \<open>2 ^ 32\<close>) when there is one, and \<open>disp\<close> in signed decimal otherwise.
\<close>

lemma label_resolution:
  assumes "decode_cmd tags bytes adr pos = Inr (d, pos')"
    and "cmd_name d \<in> {''c.j'', ''c.jal'', ''c.beqz'', ''c.bnez'', ''jal'',
                         ''beq'', ''bne'', ''blt'', ''bge'', ''bltu'', ''bgeu''}"
  shows "\<exists>cmd16 pos1 disp.
           read_u16 bytes pos = Inr (cmd16, pos1)
         \<and> (cmd_name d \<in> {''c.j'', ''c.jal''} \<longrightarrow> cj_offset cmd16 = Inr disp)
         \<and> (cmd_name d \<in> {''c.beqz'', ''c.bnez''} \<longrightarrow> cb_offset cmd16 = Inr disp)
         \<and> (cmd_name d = ''jal'' \<longrightarrow>
              (\<exists>cmd32. get_cmd32 bytes pos1 cmd16 = Inr (cmd32, pos')
                 \<and> jal_offset cmd32 = Inr disp))
         \<and> (cmd_name d \<in> {''beq'', ''bne'', ''blt'', ''bge'', ''bltu'', ''bgeu''} \<longrightarrow>
              (\<exists>cmd32. get_cmd32 bytes pos1 cmd16 = Inr (cmd32, pos')
                 \<and> branch_offset cmd32 = Inr disp))
         \<and> args d \<noteq> []
         \<and> (case tags (adr + word_of_int disp) of
               Some name \<Rightarrow> last (args d) = name
             | None \<Rightarrow> last (args d) = to_string_int disp)"
proof -
  have res: "(case tags (adr + word_of_int disp) of
               Some name \<Rightarrow> resolve tags adr disp = name
             | None \<Rightarrow> resolve tags adr disp = to_string_int disp)" for disp
    by (simp add: resolve_def split: option.splits)
  note t = returnsD [OF decode_cmd_targets assms(1), unfolded prod.case]
  from assms(2) consider
      (cj) "cmd_name d \<in> {''c.j'', ''c.jal''}"
    | (cb) "cmd_name d \<in> {''c.beqz'', ''c.bnez''}"
    | (jal) "cmd_name d = ''jal''"
    | (br) "cmd_name d \<in> {''beq'', ''bne'', ''blt'', ''bge'', ''bltu'', ''bgeu''}"
    by blast
  then show ?thesis
  proof cases
    case cj
    with t [THEN conjunct1] obtain cmd16 pos1 disp where f: "read_u16 bytes pos = Inr (cmd16, pos1)"
      "cj_offset cmd16 = Inr disp" "args d = [resolve tags adr disp]"
      by blast
    from cj have n: "cmd_name d \<notin> {''c.beqz'', ''c.bnez''}" "cmd_name d \<noteq> ''jal''"
      "cmd_name d \<notin> {''beq'', ''bne'', ''blt'', ''bge'', ''bltu'', ''bgeu''}"
      by auto
    show ?thesis
      apply (rule exI [of _ cmd16], rule exI [of _ pos1], rule exI [of _ disp])
      using f n res [of disp] apply (simp split: option.splits)
      done
  next
    case cb
    with t [THEN conjunct2, THEN conjunct1] obtain cmd16 pos1 disp rs1
      where f: "read_u16 bytes pos = Inr (cmd16, pos1)"
      "cb_offset cmd16 = Inr disp" "args d = [rs1, resolve tags adr disp]"
      by blast
    from cb have n: "cmd_name d \<notin> {''c.j'', ''c.jal''}" "cmd_name d \<noteq> ''jal''"
      "cmd_name d \<notin> {''beq'', ''bne'', ''blt'', ''bge'', ''bltu'', ''bgeu''}"
      by auto
    show ?thesis
      apply (rule exI [of _ cmd16], rule exI [of _ pos1], rule exI [of _ disp])
      using f n res [of disp] apply (simp split: option.splits)
      done
  next
    case jal
    with t [THEN conjunct2, THEN conjunct2, THEN conjunct1] obtain cmd16 pos1 cmd32 disp rd
      where f: "read_u16 bytes pos = Inr (cmd16, pos1)"
      "get_cmd32 bytes pos1 cmd16 = Inr (cmd32, pos')"
      "jal_offset cmd32 = Inr disp" "args d = [rd, resolve tags adr disp]"
      by blast
    from jal have n: "cmd_name d \<notin> {''c.j'', ''c.jal''}" "cmd_name d \<notin> {''c.beqz'', ''c.bnez''}"
      "cmd_name d \<notin> {''beq'', ''bne'', ''blt'', ''bge'', ''bltu'', ''bgeu''}"
      by auto
    show ?thesis
      apply (rule exI [of _ cmd16], rule exI [of _ pos1], rule exI [of _ disp])
      using f n res [of disp] apply (simp split: option.splits)
      done
  next
    case br
    with t [THEN conjunct2, THEN conjunct2, THEN conjunct2] obtain cmd16 pos1 cmd32 disp rs1 rs2
      where f: "read_u16 bytes pos = Inr (cmd16, pos1)"
      "get_cmd32 bytes pos1 cmd16 = Inr (cmd32, pos')"
      "branch_offset cmd32 = Inr disp" "args d = [rs1, rs2, resolve tags adr disp]"
      by blast
    from br have n: "cmd_name d \<notin> {''c.j'', ''c.jal''}" "cmd_name d \<notin> {''c.beqz'', ''c.bnez''}"
      "cmd_name d \<noteq> ''jal''"
      by auto
    show ?thesis
      apply (rule exI [of _ cmd16], rule exI [of _ pos1], rule exI [of _ disp])
      using f n res [of disp] apply (simp split: option.splits)
      done
  qed
qed

text \<open>
  The lemma on the half-word \<^verbatim>\<open>0xbffd\<close> (c.j with displacement -2): at address 2 the
  target 0 carries the symbol main; at address 4 the target 2 has no symbol.
\<close>

lemma label_resolution_example:
  "decode_cmd [0 \<mapsto> ''main''] [0xfd, 0xbf] 2 0
     = Inr (\<lparr>cmd_name = ''c.j'', args = [''main''], is_load_store = False\<rparr>, 2)
   \<and> read_u16 [0xfd, 0xbf] 0 = Inr (0xbffd, 2)
   \<and> cj_offset 0xbffd = Inr (- 2)
   \<and> [0 \<mapsto> ''main''] ((2 :: u32) + word_of_int (- 2)) = Some ''main''
   \<and> decode_cmd [0 \<mapsto> ''main''] [0xfd, 0xbf] 4 0
     = Inr (\<lparr>cmd_name = ''c.j'', args = [''-2''], is_load_store = False\<rparr>, 2)"
proof -
  have r: "read_u16 [0xfd, 0xbf] 0 = Inr (0xbffd, 2)"
    by (simp add: read_u16_def)
  have o: "cj_offset 0xbffd = Inr (- 2)"
    by (simp add: cj_offset_def field_eval)
  have d: "decode_cmd [0 \<mapsto> ''main''] [0xfd, 0xbf] 2 0
     = Inr (\<lparr>cmd_name = ''c.j'', args = [''main''], is_load_store = False\<rparr>, 2)"
    by (simp add: read_eval quadrant1_def o field_eval fmt_eval)
  have d': "decode_cmd [0 \<mapsto> ''main''] [0xfd, 0xbf] 4 0
     = Inr (\<lparr>cmd_name = ''c.j'', args = [''-2''], is_load_store = False\<rparr>, 2)"
    by (simp add: read_eval quadrant1_def o field_eval fmt_eval)
  from label_resolution [OF d] label_resolution [OF d'] r o d d' show ?thesis
    by simp
qed

text \<open>
  Claim C4 says that for every jal the target operand is the entry of \<open>tags\<close> at
  \<open>pc + disp\<close> when there is one. The decoder returns no instruction for a jal whose
  destination register is 16 or more: the register is named first, through
  \<^verbatim>\<open>get_reg(get_signed(cmd32, 7, 11))\<close>, and the run stops there with
  \<^verbatim>\<open>std::invalid_argument("unknown register")\<close>, before the displacement is looked
  up. On the bytes \<^verbatim>\<open>6f 08 00 00\<close> (jal with rd = 16 and displacement 0) at address 0,
  where the symbol main stands, the operand of the claim is main, and the code writes
  no line. With rd = 15, the bytes \<^verbatim>\<open>ef 07 00 00\<close>, it writes \<^verbatim>\<open>jal a5, main\<close>.
\<close>

theorem jal_rd_16_target_not_rendered:
  "jal_offset 0x0000086f = Inr 0
   \<and> resolve [0 \<mapsto> ''main''] 0 0 = ''main''
   \<and> parse_text_iter [0 \<mapsto> ''main''] [0x6f, 0x08, 0x00, 0x00] 0 0
        = Inl (InvalidArgument ''unknown register'')
   \<and> parse_text_loop [0 \<mapsto> ''main''] [0x6f, 0x08, 0x00, 0x00] 0 4 0
        = ([], Some (InvalidArgument ''unknown register''))
   \<and> parse_text_iter [0 \<mapsto> ''main''] [0xef, 0x07, 0x00, 0x00] 0 0
        = Inr (0, ''00000000       main: jal a5, main'' @ [newline], 4)"
proof -
  have o: "jal_offset 0x0000086f = Inr 0"
    by (simp add: jal_offset_def field_eval)
  have r: "resolve [0 \<mapsto> ''main''] 0 0 = ''main''"
    by (simp add: resolve_def)
  have i: "parse_text_iter [0 \<mapsto> ''main''] [0x6f, 0x08, 0x00, 0x00] 0 0
        = Inl (InvalidArgument ''unknown register'')"
    by (simp add: parse_text_iter_def read_eval op_jal_def field_eval)
  have l: "parse_text_loop [0 \<mapsto> ''main''] [0x6f, 0x08, 0x00, 0x00] 0 4 0
        = ([], Some (InvalidArgument ''unknown register''))"
    by (subst parse_text_loop.simps) (simp add: i)
  have s: "parse_text_iter [0 \<mapsto> ''main''] [0xef, 0x07, 0x00, 0x00] 0 0
        = Inr (0, ''00000000       main: jal a5, main'' @ [newline], 4)"
    apply (simp add: parse_text_iter_def read_eval op_jal_def jal_offset_def resolve_def
                     field_eval fmt_eval)
    apply (simp add: emit_eval fmt_eval)
    done
  from o r i l s show ?thesis
    by (intro conjI)
qed

section \<open>The start of an emitted line\<close>

text \<open>
  The digits of a number below \<open>b ^ k\<close> are at most \<open>k\<close>, and each is a digit of the
  base.
\<close>

lemma digits_length:
  "2 \<le> b \<Longrightarrow> n < b ^ k \<Longrightarrow> 0 < k \<Longrightarrow> length (digits b f n) \<le> k"
proof (induction b f n arbitrary: k rule: digits.induct)
  case (1 b f n)
  show ?case
  proof (cases "n < b")
    case True
    with 1(4) show ?thesis
      by (subst digits.simps) simp
  next
    case False
    with 1(2) have nb: "\<not> (b < 2 \<or> n < b)" by simp
    from False 1(3,4) have k1: "1 < k"
      by (cases "k = 1") auto
    then obtain k' where k': "k = Suc k'" "0 < k'"
      by (cases k) auto
    have "n div b < b ^ k'"
      using 1(3) k' 1(2) by (simp add: less_mult_imp_div_less mult.commute)
    then have "length (digits b f (n div b)) \<le> k'"
      using nb 1(2) k' by (intro 1(1)) simp_all
    with nb k' show ?thesis
      by (subst digits.simps) simp
  qed
qed

lemma digits_set:
  "2 \<le> b \<Longrightarrow> set (digits b f n) \<subseteq> f ` {..<b}"
proof (induction b f n rule: digits.induct)
  case (1 b f n)
  show ?case
  proof (cases "n < b")
    case True
    then show ?thesis
      by (subst digits.simps) simp
  next
    case False
    with 1(2) have nb: "\<not> (b < 2 \<or> n < b)" by simp
    have "set (digits b f (n div b)) \<subseteq> f ` {..<b}"
      using nb 1(2) by (intro 1(1)) simp_all
    moreover have "n mod b < b"
      using 1(2) by simp
    ultimately show ?thesis
      using nb by (subst digits.simps) auto
  qed
qed

lemma digit_char_hex: "d < 16 \<Longrightarrow> digit_char d \<in> set ''0123456789abcdef''"
  unfolding digit_char_def by (rule nth_mem) simp

lemma hex08_length: "length (pad_left 8 CHR ''0'' (hex_lower (unat (adr :: u32)))) = 8"
proof -
  have "unat adr < 2 ^ 32"
    using unsigned_less [of adr] by simp
  then have "unat adr < 16 ^ 8"
    by simp
  then have "length (digits 16 digit_char (unat adr)) \<le> 8"
    by (intro digits_length) simp_all
  then show ?thesis
    by (simp add: pad_left_def hex_lower_def)
qed

lemma hex08_chars:
  "set (pad_left 8 CHR ''0'' (hex_lower (unat (adr :: u32)))) \<subseteq> set ''0123456789abcdef''"
proof -
  have "set (digits 16 digit_char (unat adr)) \<subseteq> digit_char ` {..<16}"
    by (intro digits_set) simp
  also have "\<dots> \<subseteq> set ''0123456789abcdef''"
    using digit_char_hex by blast
  finally show ?thesis
    by (auto simp: pad_left_def hex_lower_def)
qed

lemma hex_digit_value_digit_char:
  assumes "d < 16"
  shows "hex_digit_value (digit_char d) = d"
proof -
  have "[0..<16] = [0, 1, 2, 3, 4, 5, 6, 7, 8, 9, 10, 11, 12, 13, 14, 15 :: nat]"
    by (simp add: upt_0_numeral upt_Suc_0_numeral)
  moreover have "d \<in> set [0..<16]"
    using assms by simp
  ultimately have "d \<in> set [0, 1, 2, 3, 4, 5, 6, 7, 8, 9, 10, 11, 12, 13, 14, 15 :: nat]"
    by simp
  moreover have "\<forall>x \<in> set [0, 1, 2, 3, 4, 5, 6, 7, 8, 9, 10, 11, 12, 13, 14, 15 :: nat].
      hex_digit_value (digit_char x) = x"
    by (simp add: hex_digit_value_def digit_char_def)
  ultimately show ?thesis
    by blast
qed

lemma hex_value_digits: "hex_value (digits 16 digit_char n) = n"
proof (induction "16 :: nat" digit_char n rule: digits.induct)
  case (1 n)
  show ?case
  proof (cases "n < 16")
    case True
    then show ?thesis
      by (subst digits.simps) (simp add: hex_value_def hex_digit_value_digit_char)
  next
    case False
    then have "hex_value (digits 16 digit_char (n div 16)) = n div 16"
      by (intro 1) simp
    with False show ?thesis
      by (subst digits.simps) (simp add: hex_value_def hex_digit_value_digit_char)
  qed
qed

lemma hex_value_zeros: "hex_value (replicate k CHR ''0'' @ s) = hex_value s"
  by (induction k) (simp_all add: hex_value_def hex_digit_value_def)

lemma hex08_value: "hex_value (pad_left 8 CHR ''0'' (hex_lower (unat adr))) = unat adr"
  by (simp add: pad_left_def hex_lower_def hex_value_zeros hex_value_digits)

text \<open>\<^verbatim>\<open>calc_tags\<close> never stores an empty name.\<close>

lemma tags_of_symbols_names:
  "tags_of_symbols bytes so h ids tags = Inr tags' \<Longrightarrow> [] \<notin> ran tags \<Longrightarrow> [] \<notin> ran tags'"
proof (induction ids arbitrary: tags)
  case Nil
  then show ?case by simp
next
  case (Cons i ids)
  from Cons.prems(1) obtain sym :: Elf32_Sym and name where
    "tags_of_symbols bytes so h ids (if name \<noteq> [] then tags(st_value sym \<mapsto> name) else tags)
       = Inr tags'"
    by (auto simp: and_then_eq_Inr)
  moreover have "[] \<notin> ran (if name \<noteq> [] then tags(st_value sym \<mapsto> name) else tags)"
    using Cons.prems(2) by (auto simp: ran_def)
  ultimately show ?case
    by (rule Cons.IH)
qed

lemma tags_of_sections_names:
  "tags_of_sections bytes so hs tags = Inr tags' \<Longrightarrow> [] \<notin> ran tags \<Longrightarrow> [] \<notin> ran tags'"
proof (induction hs arbitrary: tags)
  case Nil
  then show ?case by simp
next
  case (Cons h hs)
  show ?case
  proof (cases "sh_type h = SYMTAB_TYPE")
    case True
    with Cons.prems(1) have "\<exists>t. tags_of_symbols bytes so h [0..<sym_count h] tags = Inr t
      \<and> tags_of_sections bytes so hs t = Inr tags'"
      by (auto simp: and_then_eq_Inr)
    then obtain t where t: "tags_of_symbols bytes so h [0..<sym_count h] tags = Inr t"
      "tags_of_sections bytes so hs t = Inr tags'"
      by blast
    from t(1) Cons.prems(2) have "[] \<notin> ran t"
      by (rule tags_of_symbols_names)
    with t(2) show ?thesis
      by (rule Cons.IH)
  next
    case False
    with Cons.prems(1) have "tags_of_sections bytes so hs tags = Inr tags'"
      by simp
    then show ?thesis
      using Cons.prems(2) by (rule Cons.IH)
  qed
qed

lemma calc_tags_names: "calc_tags bytes hs = Inr tags \<Longrightarrow> [] \<notin> ran tags"
  by (auto simp: calc_tags_def and_then_eq_Inr dest!: tags_of_sections_names)

lemma print_cmd_title:
  assumes "print_cmd adr tag as ls = Inr line"
  shows "\<exists>rest. line = pad_left 8 CHR ''0'' (hex_lower (unat adr))
           @ (if tag = [] then replicate 13 CHR '' ''
              else '' '' @ replicate (10 - length tag) CHR '' '' @ tag @ '': '') @ rest"
  using assms
  by (auto simp: print_cmd_def print_title_def sprintf_def and_then_eq_Inr pad_left_def
           split: if_splits)

text \<open>No mnemonic of the decoder holds a space.\<close>

lemma quadrant0_mnemonic: "returns (\<lambda>d. CHR '' '' \<notin> set (cmd_name d)) (quadrant0 cmd16)"
  unfolding quadrant0_def
  apply (intro returns_and_then returns_if)
  apply (auto simp: decoded_of_def no_cmd_def)
  done

lemma quadrant1_arith_mnemonic: "returns (\<lambda>d. CHR '' '' \<notin> set (cmd_name d)) (quadrant1_arith cmd16)"
  unfolding quadrant1_arith_def Let_def
  apply (intro returns_and_then returns_if)
  apply (auto simp: decoded_of_def no_cmd_def)
  done

lemma quadrant1_mnemonic: "returns (\<lambda>d. CHR '' '' \<notin> set (cmd_name d)) (quadrant1 tags adr cmd16)"
  unfolding quadrant1_def
  apply (intro returns_and_then returns_if quadrant1_arith_mnemonic)
  apply (auto simp: decoded_of_def no_cmd_def)
  done

lemma quadrant2_mnemonic: "returns (\<lambda>d. CHR '' '' \<notin> set (cmd_name d)) (quadrant2 cmd16)"
  unfolding quadrant2_def
  apply (intro returns_and_then returns_if)
  apply (auto simp: decoded_of_def no_cmd_def)
  done

lemma op_lui_mnemonic: "returns (\<lambda>d. CHR '' '' \<notin> set (cmd_name d)) (op_lui cmd32)"
  unfolding op_lui_def
  apply (intro returns_and_then returns_if)
  apply (auto simp: decoded_of_def no_cmd_def)
  done

lemma op_auipc_mnemonic: "returns (\<lambda>d. CHR '' '' \<notin> set (cmd_name d)) (op_auipc cmd32)"
  unfolding op_auipc_def
  apply (intro returns_and_then returns_if)
  apply (auto simp: decoded_of_def no_cmd_def)
  done

lemma op_imm_mnemonic: "returns (\<lambda>d. CHR '' '' \<notin> set (cmd_name d)) (op_imm cmd32)"
  unfolding op_imm_def
  apply (intro returns_and_then returns_if)
  apply (auto simp: decoded_of_def no_cmd_def)
  done

lemma op_reg_mnemonic: "returns (\<lambda>d. CHR '' '' \<notin> set (cmd_name d)) (op_reg cmd32)"
  unfolding op_reg_def Let_def
  apply (intro returns_and_then returns_if)
  apply (auto simp: decoded_of_def no_cmd_def)
  done

lemma op_load_mnemonic: "returns (\<lambda>d. CHR '' '' \<notin> set (cmd_name d)) (op_load cmd32)"
  unfolding op_load_def
  apply (intro returns_and_then returns_if)
  apply (auto simp: decoded_of_def no_cmd_def)
  done

lemma op_store_mnemonic: "returns (\<lambda>d. CHR '' '' \<notin> set (cmd_name d)) (op_store cmd32)"
  unfolding op_store_def
  apply (intro returns_and_then returns_if)
  apply (auto simp: decoded_of_def no_cmd_def)
  done

lemma op_jal_mnemonic: "returns (\<lambda>d. CHR '' '' \<notin> set (cmd_name d)) (op_jal tags adr cmd32)"
  unfolding op_jal_def
  apply (intro returns_and_then returns_if)
  apply (auto simp: decoded_of_def no_cmd_def)
  done

lemma op_jalr_mnemonic: "returns (\<lambda>d. CHR '' '' \<notin> set (cmd_name d)) (op_jalr cmd32)"
  unfolding op_jalr_def
  apply (intro returns_and_then returns_if)
  apply (auto simp: decoded_of_def no_cmd_def)
  done

lemma op_branch_mnemonic: "returns (\<lambda>d. CHR '' '' \<notin> set (cmd_name d)) (op_branch tags adr cmd32)"
  unfolding op_branch_def
  apply (intro returns_and_then returns_if)
  apply (auto simp: decoded_of_def no_cmd_def)
  done

lemma base32_mnemonic:
  assumes "\<And>cmd32. returns (\<lambda>d. CHR '' '' \<notin> set (cmd_name d)) (dec cmd32)"
  shows "returns (\<lambda>(d, p). CHR '' '' \<notin> set (cmd_name d)) (base32 bytes pos cmd16 dec)"
  unfolding base32_def
  apply (intro returns_and_then returns_case_prod)
  apply (auto dest: returnsD [OF assms])
  done

lemma decode_cmd_mnemonic:
  "returns (\<lambda>(d, p). CHR '' '' \<notin> set (cmd_name d)) (decode_cmd tags bytes adr pos)"
  unfolding decode_cmd_def
  apply (intro returns_and_then returns_case_prod returns_if base32_mnemonic
               op_lui_mnemonic op_auipc_mnemonic op_imm_mnemonic op_reg_mnemonic op_load_mnemonic
               op_store_mnemonic op_jal_mnemonic op_jalr_mnemonic op_branch_mnemonic)
  apply (auto simp: no_cmd_def dest: returnsD [OF quadrant0_mnemonic]
                returnsD [OF quadrant1_mnemonic] returnsD [OF quadrant2_mnemonic])
  done

text \<open>The emitter's line: the title, the mnemonic, the rest.\<close>

lemma print_cmd_line:
  assumes "print_cmd adr tag (mn # as) ls = Inr line"
  shows "\<exists>rest. line = pad_left 8 CHR ''0'' (hex_lower (unat adr))
           @ (if tag = [] then replicate 13 CHR '' ''
              else '' '' @ replicate (10 - length tag) CHR '' '' @ tag @ '': '') @ mn @ rest"
  using assms
  by (auto simp: print_cmd_def print_title_def print_args_def sprintf_def and_then_eq_Inr
                 pad_left_def
           split: if_splits list.splits)

text \<open>
  Claim C8, as amended. For every instruction line that an iteration of the driver
  writes, with the symbols that \<^verbatim>\<open>calc_tags\<close> built: the line begins with the
  instruction's address as 8 lowercase hexadecimal digits; when a symbol exists at that
  address, the address is followed by one space, the symbol name padded \<^emph>\<open>on the left\<close>
  with spaces to 10 columns (a longer name is written in full), a colon and one space;
  when no symbol exists, the address is followed by exactly 13 spaces. In both cases
  the mnemonic of the decoded instruction comes next; it is not empty and holds no
  space.
\<close>

theorem line_prefix:
  assumes "calc_tags elf section_headers = Inr tags"
    and "parse_text_iter tags elf text_offset pos = Inr (adr, line, pos')"
    and "line \<noteq> ''unknown_command'' @ [newline]"
  shows "\<exists>hex mnemonic rest.
             length hex = 8 \<and> set hex \<subseteq> set ''0123456789abcdef'' \<and> hex_value hex = unat adr
           \<and> (\<exists>d. decode_cmd tags elf adr pos = Inr (d, pos') \<and> cmd_name d = mnemonic)
           \<and> mnemonic \<noteq> [] \<and> CHR '' '' \<notin> set mnemonic
           \<and> (case tags adr of
                 Some name \<Rightarrow>
                   line = hex @ '' '' @ replicate (10 - length name) CHR '' '' @ name @ '': ''
                            @ mnemonic @ rest
               | None \<Rightarrow> line = hex @ replicate 13 CHR '' '' @ mnemonic @ rest)"
proof -
  let ?tag = "case tags adr of Some name \<Rightarrow> name | None \<Rightarrow> []"
  from assms(2,3) have
    "\<exists>d :: decoded. decode_cmd tags elf adr pos = Inr (d, pos') \<and> cmd_name d \<noteq> []
       \<and> print_cmd adr ?tag (cmd_name d # args d) (is_load_store d) = Inr line"
    by (auto simp: parse_text_iter_def Let_def and_then_eq_Inr split: if_splits)
  then obtain d :: decoded where d: "decode_cmd tags elf adr pos = Inr (d, pos')"
    and ne: "cmd_name d \<noteq> []"
    and p: "print_cmd adr ?tag (cmd_name d # args d) (is_load_store d) = Inr line"
    by blast
  from p obtain rest where l: "line = pad_left 8 CHR ''0'' (hex_lower (unat adr))
           @ (if ?tag = [] then replicate 13 CHR '' ''
              else '' '' @ replicate (10 - length ?tag) CHR '' '' @ ?tag @ '': '')
           @ cmd_name d @ rest"
    by (blast dest: print_cmd_line)
  have sp: "CHR '' '' \<notin> set (cmd_name d)"
    using returnsD [OF decode_cmd_mnemonic d] by simp
  have tn: "name \<noteq> []" if "tags adr = Some name" for name
    using calc_tags_names [OF assms(1)] that by (auto simp: ran_def)
  let ?hex = "pad_left 8 CHR ''0'' (hex_lower (unat adr))"
  show ?thesis
  proof (intro exI conjI)
    show "length ?hex = 8"
      by (rule hex08_length)
    show "set ?hex \<subseteq> set ''0123456789abcdef''"
      by (rule hex08_chars)
    show "hex_value ?hex = unat adr"
      by (rule hex08_value)
    show "decode_cmd tags elf adr pos = Inr (d, pos')"
      by (rule d)
    show "cmd_name d = cmd_name d"
      by (rule refl)
    show "cmd_name d \<noteq> []"
      by (rule ne)
    show "CHR '' '' \<notin> set (cmd_name d)"
      by (rule sp)
    show "case tags adr of
            Some name \<Rightarrow>
              line = ?hex @ '' '' @ replicate (10 - length name) CHR '' '' @ name @ '': ''
                       @ cmd_name d @ rest
          | None \<Rightarrow> line = ?hex @ replicate 13 CHR '' '' @ cmd_name d @ rest"
      using l tn by (simp split: option.splits del: replicate_numeral)
  qed
qed

text \<open>
  The theorem on a file of 24 bytes: c.nop at offset 0, one symbol record at offset 2
  (name offset 1, value 0) and the string table at offset 18 with the name main; and on
  a file of 3 bytes with c.nop, an empty string table and no symbol.
\<close>

theorem line_prefix_witness:
  "calc_tags
     [0x01, 0x00, 1, 0, 0, 0, 0, 0, 0, 0, 0, 0, 0, 0, 0x12, 0, 1, 0, 0, 0x6d, 0x61, 0x69, 0x6e, 0]
     [\<lparr>sh_name = 0, sh_type = 1, sh_flags = 0, sh_addr = 0, sh_offset = 0, sh_size = 2,
        sh_link = 0, sh_info = 0, sh_addralign = 0, sh_entsize = 0\<rparr>,
      \<lparr>sh_name = 0, sh_type = 2, sh_flags = 0, sh_addr = 0, sh_offset = 2, sh_size = 16,
        sh_link = 0, sh_info = 0, sh_addralign = 0, sh_entsize = 0\<rparr>,
      \<lparr>sh_name = 0, sh_type = 3, sh_flags = 0, sh_addr = 0, sh_offset = 18, sh_size = 6,
        sh_link = 0, sh_info = 0, sh_addralign = 0, sh_entsize = 0\<rparr>]
     = Inr [0 \<mapsto> ''main'']
   \<and> parse_text_iter [0 \<mapsto> ''main'']
       [0x01, 0x00, 1, 0, 0, 0, 0, 0, 0, 0, 0, 0, 0, 0, 0x12, 0, 1, 0, 0, 0x6d, 0x61, 0x69, 0x6e, 0]
       0 0
     = Inr (0, ''00000000       main: c.nop'' @ [newline], 2)
   \<and> ''00000000       main: c.nop'' @ [newline] \<noteq> ''unknown_command'' @ [newline]
   \<and> hex_value ''00000000'' = unat (0 :: u32)
   \<and> decode_cmd [0 \<mapsto> ''main'']
       [0x01, 0x00, 1, 0, 0, 0, 0, 0, 0, 0, 0, 0, 0, 0, 0x12, 0, 1, 0, 0, 0x6d, 0x61, 0x69, 0x6e, 0]
       0 0
     = Inr (\<lparr>cmd_name = ''c.nop'', args = [], is_load_store = False\<rparr>, 2)
   \<and> CHR '' '' \<notin> set ''c.nop''
   \<and> ''00000000       main: c.nop'' @ [newline]
       = ''00000000'' @ '' '' @ replicate (10 - length ''main'') CHR '' '' @ ''main'' @ '': ''
           @ ''c.nop'' @ [newline]
   \<and> calc_tags [0x01, 0x00, 0]
       [\<lparr>sh_name = 0, sh_type = 1, sh_flags = 0, sh_addr = 0, sh_offset = 0, sh_size = 2,
          sh_link = 0, sh_info = 0, sh_addralign = 0, sh_entsize = 0\<rparr>,
        \<lparr>sh_name = 0, sh_type = 3, sh_flags = 0, sh_addr = 0, sh_offset = 2, sh_size = 1,
          sh_link = 0, sh_info = 0, sh_addralign = 0, sh_entsize = 0\<rparr>]
     = Inr Map.empty
   \<and> parse_text_iter Map.empty [0x01, 0x00, 0] 0 0
     = Inr (0, ''00000000             c.nop'' @ [newline], 2)
   \<and> ''00000000             c.nop'' @ [newline] \<noteq> ''unknown_command'' @ [newline]
   \<and> ''00000000             c.nop'' @ [newline]
       = ''00000000'' @ replicate 13 CHR '' '' @ ''c.nop'' @ [newline]"
proof -
  let ?elf' = "[0x01, 0x00, 0] :: u8 list"
  let ?hs' = "[\<lparr>sh_name = 0, sh_type = 1, sh_flags = 0, sh_addr = 0, sh_offset = 0, sh_size = 2,
        sh_link = 0, sh_info = 0, sh_addralign = 0, sh_entsize = 0\<rparr>,
      \<lparr>sh_name = 0, sh_type = 3, sh_flags = 0, sh_addr = 0, sh_offset = 2, sh_size = 1,
        sh_link = 0, sh_info = 0, sh_addralign = 0, sh_entsize = 0\<rparr>] :: Elf32_section_header list"
  have c': "calc_tags ?elf' ?hs' = Inr Map.empty"
    by (simp add: calc_tags_def section_at_def find_section_def TEXT_TYPE_def SYMTAB_TYPE_def
          STRTAB_TYPE_def)
  have i': "parse_text_iter Map.empty ?elf' 0 0
             = Inr (0, ''00000000             c.nop'' @ [newline], 2)"
    apply (simp add: parse_text_iter_def read_eval quadrant1_def field_eval fmt_eval)
    apply (simp add: emit_eval fmt_eval)
    done
  have u': "''00000000             c.nop'' @ [newline] \<noteq> ''unknown_command'' @ [newline]"
    by simp
  let ?elf = "[0x01, 0x00, 1, 0, 0, 0, 0, 0, 0, 0, 0, 0, 0, 0, 0x12, 0, 1, 0, 0, 0x6d, 0x61, 0x69, 0x6e, 0]
                :: u8 list"
  let ?hs = "[\<lparr>sh_name = 0, sh_type = 1, sh_flags = 0, sh_addr = 0, sh_offset = 0, sh_size = 2,
        sh_link = 0, sh_info = 0, sh_addralign = 0, sh_entsize = 0\<rparr>,
      \<lparr>sh_name = 0, sh_type = 2, sh_flags = 0, sh_addr = 0, sh_offset = 2, sh_size = 16,
        sh_link = 0, sh_info = 0, sh_addralign = 0, sh_entsize = 0\<rparr>,
      \<lparr>sh_name = 0, sh_type = 3, sh_flags = 0, sh_addr = 0, sh_offset = 18, sh_size = 6,
        sh_link = 0, sh_info = 0, sh_addralign = 0, sh_entsize = 0\<rparr>] :: Elf32_section_header list"
  have n: "read_cstring ?elf 19 = Inr ''main''"
    by (simp add: read_cstring.simps char_of_def bit_Suc_0_iff)
  have c: "calc_tags ?elf ?hs = Inr [0 \<mapsto> ''main'']"
    by (simp add: calc_tags_def section_at_def find_section_def TEXT_TYPE_def SYMTAB_TYPE_def
          STRTAB_TYPE_def sym_count_def read_sym_def sym_pos_def le32_def le16_def get_name_def n)
  have d: "decode_cmd [0 \<mapsto> ''main''] ?elf 0 0
     = Inr (\<lparr>cmd_name = ''c.nop'', args = [], is_load_store = False\<rparr>, 2)"
    by (simp add: read_eval quadrant1_def field_eval fmt_eval decoded_of_def)
  have i: "parse_text_iter [0 \<mapsto> ''main''] ?elf 0 0
             = Inr (0, ''00000000       main: c.nop'' @ [newline], 2)"
    apply (simp add: parse_text_iter_def read_eval quadrant1_def field_eval fmt_eval)
    apply (simp add: emit_eval fmt_eval)
    done
  have u: "''00000000       main: c.nop'' @ [newline] \<noteq> ''unknown_command'' @ [newline]"
    by simp
  have h: "hex_value ''00000000'' = unat (0 :: u32)"
    by (simp add: hex_value_def hex_digit_value_def)
  from line_prefix [OF c i u] line_prefix [OF c' i' u'] c i u h d c' i' show ?thesis
    by (simp add: replicate_numeral)
qed

text \<open>
  Claim C8 as stated fails for the symbol main at address 0: \<^verbatim>\<open>%10s\<close> puts the six
  spaces before the name, where a name padded on the right has them after it.
\<close>

theorem right_padded_name_counterexample:
  "parse_text_iter [0 \<mapsto> ''main''] [0x01, 0x00] 0 0
     = Inr (0, ''00000000       main: c.nop'' @ [newline], 2)
   \<and> (\<nexists>rest. ''00000000       main: c.nop'' @ [newline]
                 = ''00000000'' @ '' '' @ pad_right 10 CHR '' '' ''main'' @ '': '' @ rest)"
proof -
  have "parse_text_iter [0 \<mapsto> ''main''] [0x01, 0x00] 0 0
     = Inr (0, ''00000000       main: c.nop'' @ [newline], 2)"
    apply (simp add: parse_text_iter_def read_eval quadrant1_def field_eval fmt_eval)
    apply (simp add: emit_eval fmt_eval)
    done
  then show ?thesis
    by (simp add: pad_right_def replicate_numeral)
qed

section \<open>Addresses of consecutive instructions\<close>

text \<open>The first address of a run of the loop is the one of its starting position.\<close>

lemma parse_text_loop_hd:
  "parse_text_loop tags file off sz pos = ((a, l) # es, r) \<Longrightarrow> a = word_of_nat pos - off"
  by (subst (asm) parse_text_loop.simps)
     (auto split: if_splits sum.splits prod.splits dest: parse_text_iter_advance)

lemma parse_text_loop_trace:
  "successively (\<lambda>a b. b - a = 2 \<or> b - a = 4)
     (map fst (fst (parse_text_loop tags bytes off sz pos)))"
proof (induction tags bytes off sz pos rule: parse_text_loop.induct)
  case (1 tags bytes off sz pos)
  show ?case
  proof (cases "word_of_nat pos - off < sz")
    case False
    then show ?thesis
      by (subst parse_text_loop.simps) simp
  next
    case True
    show ?thesis
    proof (cases "parse_text_iter tags bytes off pos")
      case (Inl e)
      with True show ?thesis
        by (subst parse_text_loop.simps) simp
    next
      case (Inr x)
      obtain adr line pos' where x: "x = (adr, line, pos')"
        by (cases x)
      obtain es r where rest: "parse_text_loop tags bytes off sz pos' = (es, r)"
        by (cases "parse_text_loop tags bytes off sz pos'")
      from Inr x have adv: "pos' = pos + 2 \<or> pos' = pos + 4" "adr = word_of_nat pos - off"
        by (auto dest: parse_text_iter_advance)
      have ih: "successively (\<lambda>a b. b - a = 2 \<or> b - a = 4) (map fst es)"
        using "1.IH" [OF True Inr x [symmetric] refl] rest by simp
      have first: "fst (hd es) - adr = 2 \<or> fst (hd es) - adr = 4" if "es \<noteq> []"
      proof -
        from that obtain a l es' where "es = (a, l) # es'"
          by (cases es) auto
        with rest have "a = word_of_nat pos' - off"
          by (auto dest: parse_text_loop_hd)
        with adv \<open>es = (a, l) # es'\<close> show ?thesis
          by auto
      qed
      have "parse_text_loop tags bytes off sz pos = ((adr, line) # es, r)"
        using True Inr x rest by (subst parse_text_loop.simps) simp
      with ih first show ?thesis
        by (cases es) (auto simp: successively_Cons)
    qed
  qed
qed

text \<open>
  A line written by the emitter carries the address it was given, and it is not the
  placeholder line; so every line of an iteration is the placeholder or carries the
  address of the iteration.
\<close>

lemma print_cmd_address:
  assumes "print_cmd adr tag as ls = Inr line"
  shows "line_address line = Some adr"
proof -
  let ?hex = "pad_left 8 CHR ''0'' (hex_lower (unat adr))"
  from assms obtain rest where l: "line = ?hex @ rest"
    by (auto dest!: print_cmd_title)
  have len: "length ?hex = 8"
    by (rule hex08_length)
  then have "?hex \<noteq> []"
    by auto
  then have "hd line \<in> set ?hex"
    using l by simp
  then have "hd line \<in> set ''0123456789abcdef''"
    using hex08_chars [of adr] by blast
  then have "hd line \<noteq> CHR ''u''"
    by auto
  then have ne: "line \<noteq> ''unknown_command'' @ [newline]"
    by auto
  have "take 8 line = ?hex"
    using l len by simp
  then have "word_of_nat (hex_value (take 8 line)) = adr"
    by (simp add: hex08_value)
  with ne show ?thesis
    by (simp add: line_address_def)
qed

lemma parse_text_iter_line:
  assumes "parse_text_iter tags bytes off pos = Inr (adr, line, pos')"
  shows "line_address line = None \<or> line_address line = Some adr"
proof -
  let ?tag = "case tags adr of Some name \<Rightarrow> name | None \<Rightarrow> []"
  from assms have "line = ''unknown_command'' @ [newline]
    \<or> (\<exists>d :: decoded. print_cmd adr ?tag (cmd_name d # args d) (is_load_store d) = Inr line)"
    by (auto simp: parse_text_iter_def Let_def and_then_eq_Inr split: if_splits)
  then show ?thesis
    by (auto simp: line_address_def dest: print_cmd_address)
qed

lemma parse_text_loop_lines:
  "(a, l) \<in> set (fst (parse_text_loop tags bytes off sz pos)) \<Longrightarrow>
     line_address l = None \<or> line_address l = Some a"
proof (induction tags bytes off sz pos rule: parse_text_loop.induct)
  case (1 tags bytes off sz pos)
  show ?case
  proof (cases "word_of_nat pos - off < sz")
    case False
    with "1.prems" show ?thesis
      by (subst (asm) parse_text_loop.simps) simp
  next
    case True
    show ?thesis
    proof (cases "parse_text_iter tags bytes off pos")
      case (Inl e)
      with True "1.prems" show ?thesis
        by (subst (asm) parse_text_loop.simps) simp
    next
      case (Inr x)
      obtain adr line pos' where x: "x = (adr, line, pos')"
        by (cases x)
      obtain es r where rest: "parse_text_loop tags bytes off sz pos' = (es, r)"
        by (cases "parse_text_loop tags bytes off sz pos'")
      have "parse_text_loop tags bytes off sz pos = ((adr, line) # es, r)"
        using True Inr x rest by (subst parse_text_loop.simps) simp
      with "1.prems" have "(a, l) = (adr, line) \<or> (a, l) \<in> set es"
        by simp
      then show ?thesis
      proof
        assume "(a, l) = (adr, line)"
        with Inr x show ?thesis
          by (auto dest: parse_text_iter_line)
      next
        assume "(a, l) \<in> set es"
        with rest show ?thesis
          using "1.IH" [OF True Inr x [symmetric] refl] by simp
      qed
    qed
  qed
qed

text \<open>
  Claim C6, as amended. The listing is the sequence of the lines that the iterations
  of the driver loop write: an iteration that decodes no instruction writes the
  placeholder line, which carries no address, and every other line carries the address
  of its iteration. For every two adjacent lines of the listing that both carry an
  address, the second address is the first plus 2 or plus 4 (as 32-bit numbers). The
  addresses of the iterations themselves, placeholder or not, go up by 2 or by 4 from
  each iteration to the next, and an iteration that completes leaves the cursor 2 or 4
  bytes after its position before.
\<close>

theorem adjacent_lines_addresses:
  "successively
     (\<lambda>l m. \<forall>a b. line_address l = Some a \<and> line_address m = Some b \<longrightarrow> b - a = 2 \<or> b - a = 4)
     (map snd (fst (parse_text_loop tags file text_offset text_size pos)))
   \<and> (\<forall>(a, l) \<in> set (fst (parse_text_loop tags file text_offset text_size pos)).
         line_address l = None \<or> line_address l = Some a)
   \<and> successively (\<lambda>a b. b - a = 2 \<or> b - a = 4)
       (map fst (fst (parse_text_loop tags file text_offset text_size pos)))
   \<and> (\<forall>adr line pos'. parse_text_iter tags file text_offset pos = Inr (adr, line, pos')
         \<longrightarrow> pos' = pos + 2 \<or> pos' = pos + 4)"
proof -
  let ?es = "fst (parse_text_loop tags file text_offset text_size pos)"
  have t: "successively (\<lambda>a b. b - a = 2 \<or> b - a = 4) (map fst ?es)"
    by (rule parse_text_loop_trace)
  have c: "line_address (snd x) = None \<or> line_address (snd x) = Some (fst x)" if "x \<in> set ?es" for x
    using that parse_text_loop_lines [of "fst x" "snd x" tags "file" text_offset text_size pos]
    by simp
  from t have "successively (\<lambda>x y. fst y - fst x = 2 \<or> fst y - fst x = 4) ?es"
    by (simp add: successively_map)
  then have "successively
     (\<lambda>x y. \<forall>a b. line_address (snd x) = Some a \<and> line_address (snd y) = Some b
                 \<longrightarrow> b - a = 2 \<or> b - a = 4) ?es"
  proof (rule successively_mono)
    fix x y
    assume "x \<in> set ?es" and "y \<in> set ?es"
      and "fst y - fst x = 2 \<or> fst y - fst x = 4"
    with c [of x] c [of y]
    show "\<forall>a b. line_address (snd x) = Some a \<and> line_address (snd y) = Some b
                 \<longrightarrow> b - a = 2 \<or> b - a = 4"
      by auto
  qed
  then have "successively
     (\<lambda>l m. \<forall>a b. line_address l = Some a \<and> line_address m = Some b \<longrightarrow> b - a = 2 \<or> b - a = 4)
     (map snd ?es)"
    by (simp add: successively_map)
  moreover have "\<forall>(a, l) \<in> set ?es. line_address l = None \<or> line_address l = Some a"
    by (auto dest: parse_text_loop_lines)
  moreover have "\<forall>adr line pos'. parse_text_iter tags file text_offset pos = Inr (adr, line, pos')
         \<longrightarrow> pos' = pos + 2 \<or> pos' = pos + 4"
    by (auto dest: parse_text_iter_advance)
  ultimately show ?thesis
    using t by simp
qed

text \<open>
  The theorem on a section of six bytes: c.nop at address 0, then lui at address 2.
\<close>

theorem adjacent_lines_addresses_witness:
  "parse_text_iter Map.empty [0x01, 0x00, 0x37, 0x15, 0x00, 0x00] 0 0
     = Inr (0, ''00000000'' @ replicate 13 CHR '' '' @ ''c.nop'' @ [newline], 2)
   \<and> ((2 :: nat) = 0 + 2 \<or> (2 :: nat) = 0 + 4)
   \<and> fst (parse_text_loop Map.empty [0x01, 0x00, 0x37, 0x15, 0x00, 0x00] 0 6 0)
       = [(0, ''00000000'' @ replicate 13 CHR '' '' @ ''c.nop'' @ [newline]),
          (2, ''00000002'' @ replicate 13 CHR '' '' @ ''lui a0, 4096'' @ [newline])]
   \<and> line_address (''00000000'' @ replicate 13 CHR '' '' @ ''c.nop'' @ [newline]) = Some 0
   \<and> line_address (''00000002'' @ replicate 13 CHR '' '' @ ''lui a0, 4096'' @ [newline]) = Some 2
   \<and> ((2 :: u32) - 0 = 2 \<or> (2 :: u32) - 0 = 4)"
proof -
  let ?f = "[0x01, 0x00, 0x37, 0x15, 0x00, 0x00] :: u8 list"
  have i0: "parse_text_iter Map.empty ?f 0 0
     = Inr (0, ''00000000'' @ replicate 13 CHR '' '' @ ''c.nop'' @ [newline], 2)"
    apply (simp add: parse_text_iter_def read_eval quadrant1_def field_eval fmt_eval)
    apply (simp add: emit_eval fmt_eval)
    done
  have i2: "parse_text_iter Map.empty ?f 0 2
     = Inr (2, ''00000002'' @ replicate 13 CHR '' '' @ ''lui a0, 4096'' @ [newline], 6)"
    apply (simp add: parse_text_iter_def read_eval op_lui_def u_imm_def field_eval fmt_eval)
    apply (simp add: emit_eval fmt_eval)
    done
  have l6: "parse_text_loop Map.empty ?f 0 6 6 = ([], None)"
    by (subst parse_text_loop.simps) simp
  have l2: "parse_text_loop Map.empty ?f 0 6 2
              = ([(2, ''00000002'' @ replicate 13 CHR '' '' @ ''lui a0, 4096'' @ [newline])], None)"
    by (subst parse_text_loop.simps) (simp add: i2 l6 del: replicate_numeral)
  have l0: "fst (parse_text_loop Map.empty ?f 0 6 0)
       = [(0, ''00000000'' @ replicate 13 CHR '' '' @ ''c.nop'' @ [newline]),
          (2, ''00000002'' @ replicate 13 CHR '' '' @ ''lui a0, 4096'' @ [newline])]"
    by (subst parse_text_loop.simps) (simp add: i0 l2 del: replicate_numeral)
  have a0: "line_address (''00000000'' @ replicate 13 CHR '' '' @ ''c.nop'' @ [newline]) = Some 0"
    by (simp add: line_address_def hex_value_def hex_digit_value_def)
  have a2: "line_address (''00000002'' @ replicate 13 CHR '' '' @ ''lui a0, 4096'' @ [newline]) = Some 2"
    by (simp add: line_address_def hex_value_def hex_digit_value_def)
  from adjacent_lines_addresses [of Map.empty ?f 0 6 0] i0 l0 a0 a2 show ?thesis
    by (simp del: replicate_numeral)
qed

text \<open>
  Claim C6 as stated fails on a section with the bytes \<^verbatim>\<open>01 00 63 20 00 00 01 00\<close>:
  c.nop at address 0, at address 2 a word with the branch opcode 1100011 and the
  function code 010, which is no branch, so that its iteration reads four bytes and
  writes the placeholder line without an address, and c.nop at address 6. The emitted
  addresses are 0 and 6.
\<close>

theorem placeholder_gap_counterexample:
  "map snd (fst (parse_text_loop Map.empty [0x01, 0x00, 0x63, 0x20, 0x00, 0x00, 0x01, 0x00] 0 8 0))
     = [''00000000'' @ replicate 13 CHR '' '' @ ''c.nop'' @ [newline],
        ''unknown_command'' @ [newline],
        ''00000006'' @ replicate 13 CHR '' '' @ ''c.nop'' @ [newline]]
   \<and> emitted_addresses
        (map snd (fst (parse_text_loop Map.empty [0x01, 0x00, 0x63, 0x20, 0x00, 0x00, 0x01, 0x00] 0 8 0)))
     = [0, 6]
   \<and> \<not> ((6 :: u32) - 0 = 2 \<or> (6 :: u32) - 0 = 4)"
proof -
  let ?f = "[0x01, 0x00, 0x63, 0x20, 0x00, 0x00, 0x01, 0x00] :: u8 list"
  let ?l0 = "''00000000'' @ replicate 13 CHR '' '' @ ''c.nop'' @ [newline]"
  let ?l6 = "''00000006'' @ replicate 13 CHR '' '' @ ''c.nop'' @ [newline]"
  let ?u = "''unknown_command'' @ [newline]"
  have i0: "parse_text_iter Map.empty ?f 0 0 = Inr (0, ?l0, 2)"
    apply (simp add: parse_text_iter_def read_eval quadrant1_def field_eval fmt_eval)
    apply (simp add: emit_eval fmt_eval)
    done
  have i2: "parse_text_iter Map.empty ?f 0 2 = Inr (2, ?u, 6)"
    by (simp add: parse_text_iter_def read_eval op_branch_def branch_offset_def resolve_def
          decoded_of_def field_eval fmt_eval)
  have i6: "parse_text_iter Map.empty ?f 0 6 = Inr (6, ?l6, 8)"
    apply (simp add: parse_text_iter_def read_eval quadrant1_def field_eval fmt_eval)
    apply (simp add: emit_eval fmt_eval)
    done
  have l8: "parse_text_loop Map.empty ?f 0 8 8 = ([], None)"
    by (subst parse_text_loop.simps) simp
  have l6: "parse_text_loop Map.empty ?f 0 8 6 = ([(6, ?l6)], None)"
    by (subst parse_text_loop.simps) (simp add: i6 l8 del: replicate_numeral)
  have l2: "parse_text_loop Map.empty ?f 0 8 2 = ([(2, ?u), (6, ?l6)], None)"
    by (subst parse_text_loop.simps) (simp add: i2 l6 del: replicate_numeral)
  have l0: "parse_text_loop Map.empty ?f 0 8 0 = ([(0, ?l0), (2, ?u), (6, ?l6)], None)"
    by (subst parse_text_loop.simps) (simp add: i0 l2 del: replicate_numeral)
  have e: "emitted_addresses [?l0, ?u, ?l6] = [0, 6]"
    by (simp add: emitted_addresses_def List.map_filter_def line_address_def hex_value_def
          hex_digit_value_def)
  from l0 e show ?thesis
    by (simp del: replicate_numeral)
qed

section \<open>The symbol table dump\<close>

text \<open>The header line, and where the lines of the dump come from.\<close>

lemma symtab_header_eq:
  "symtab_header = ''Symbol Value              Size Type     Bind     Vis       Index Name'' @ [newline]"
  by (simp add: symtab_header_def pad_left_def pad_right_def replicate_numeral)

lemma symtab_entries_lines:
  "symtab_entries bytes so h ids = (lines, r) \<Longrightarrow>
     \<forall>l \<in> set lines. \<exists>i \<in> set ids. symtab_entry bytes so h i = Inr l"
proof (induction ids arbitrary: lines r)
  case Nil
  then show ?case by simp
next
  case (Cons i ids)
  show ?case
  proof (cases "symtab_entry bytes so h i")
    case (Inl e)
    with Cons.prems show ?thesis by simp
  next
    case (Inr line)
    obtain lines' r' where rest: "symtab_entries bytes so h ids = (lines', r')"
      by (cases "symtab_entries bytes so h ids")
    with Inr Cons.prems have "lines = line # lines'"
      by simp
    with Inr Cons.IH [OF rest] show ?thesis
      by auto
  qed
qed

lemma symtab_sections_lines:
  "symtab_sections bytes so hs = (lines, r) \<Longrightarrow>
     \<forall>l \<in> set lines. \<exists>h \<in> set hs. sh_type h = SYMTAB_TYPE
        \<and> (\<exists>i < sym_count h. symtab_entry bytes so h i = Inr l)"
proof (induction hs arbitrary: lines r)
  case Nil
  then show ?case by simp
next
  case (Cons h hs)
  show ?case
  proof (cases "sh_type h = SYMTAB_TYPE")
    case False
    with Cons.prems have "symtab_sections bytes so hs = (lines, r)"
      by simp
    from Cons.IH [OF this] show ?thesis
      by auto
  next
    case True
    obtain l1 r1 where e: "symtab_entries bytes so h [0..<sym_count h] = (l1, r1)"
      by (cases "symtab_entries bytes so h [0..<sym_count h]")
    obtain l2 r2 where s: "symtab_sections bytes so hs = (l2, r2)"
      by (cases "symtab_sections bytes so hs")
    from symtab_entries_lines [OF e]
    have "\<forall>l \<in> set l1. \<exists>i < sym_count h. symtab_entry bytes so h i = Inr l"
      by force
    with True
    have p1: "\<forall>l \<in> set l1. \<exists>h' \<in> set (h # hs). sh_type h' = SYMTAB_TYPE
        \<and> (\<exists>i < sym_count h'. symtab_entry bytes so h' i = Inr l)"
      by simp
    from Cons.IH [OF s]
    have p2: "\<forall>l \<in> set l2. \<exists>h' \<in> set (h # hs). sh_type h' = SYMTAB_TYPE
        \<and> (\<exists>i < sym_count h'. symtab_entry bytes so h' i = Inr l)"
      by auto
    from Cons.prems True e s have ll: "lines = l1 \<or> lines = l1 @ l2"
      by (auto split: option.splits)
    show ?thesis
    proof
      fix l
      assume "l \<in> set lines"
      with ll have "l \<in> set l1 \<or> l \<in> set l2"
        by auto
      with p1 p2 show "\<exists>h' \<in> set (h # hs). sh_type h' = SYMTAB_TYPE
        \<and> (\<exists>i < sym_count h'. symtab_entry bytes so h' i = Inr l)"
        by blast
    qed
  qed
qed

lemma symtab_entry_format:
  assumes "symtab_entry bytes so h i = Inr l"
  shows "\<exists>(sym :: Elf32_Sym) ty bnd name.
           read_sym bytes (sym_pos h i) = Inr sym
         \<and> get_type (ucast (st_info sym)) = Inr ty
         \<and> get_bind (ucast (st_info sym)) = Inr bnd
         \<and> get_name bytes (st_name sym) so = Inr name
         \<and> l = symtab_line i (st_value sym) (st_size sym) ty bnd
                 (get_visibility (st_other sym)) (get_index (st_shndx sym)) name"
  using assms
  by (auto simp: symtab_entry_def and_then_eq_Inr sprintf_def split: if_splits)


text \<open>
  Claim C9, as amended. The dump begins with exactly the header line
  \<^verbatim>\<open>Symbol Value              Size Type     Bind     Vis       Index Name\<close> (the columns
  of \<^verbatim>\<open>"%s %-15s %7s %-8s %-8s %-8s %6s %s"\<close>: 14 spaces before Size, 7 before Index)
  followed by a newline, and every line after it is the format
  \<^verbatim>\<open>[%4d] 0x%-15X %5d %-8s %-8s %-8s %6s %s\<close> and a newline applied to a symbol's index in
  its section, value, size, type name, bind name, visibility name, section-index name
  and name.
\<close>

theorem symtab_dump_format:
  assumes "section_at section_headers (find_section section_headers STRTAB_TYPE) = Inr strtab"
  shows "\<exists>lines.
           fst (parse_symtab elf section_headers)
             = ''Symbol Value              Size Type     Bind     Vis       Index Name'' @ [newline]
                 @ concat lines
         \<and> (\<forall>l \<in> set lines. \<exists>h \<in> set section_headers. \<exists>i (sym :: Elf32_Sym) ty bnd name.
                sh_type h = SYMTAB_TYPE \<and> i < sym_count h
              \<and> read_sym elf (sym_pos h i) = Inr sym
              \<and> get_type (ucast (st_info sym)) = Inr ty
              \<and> get_bind (ucast (st_info sym)) = Inr bnd
              \<and> get_name elf (st_name sym) (sh_offset strtab) = Inr name
              \<and> l = ''['' @ pad_left 4 CHR '' '' (to_string_nat i) @ ''] 0x''
                    @ pad_right 15 CHR '' '' (hex_upper (unat (st_value sym)))
                    @ '' '' @ pad_left 5 CHR '' '' (to_string_int (sint (st_size sym)))
                    @ '' '' @ pad_right 8 CHR '' '' ty @ '' '' @ pad_right 8 CHR '' '' bnd
                    @ '' '' @ pad_right 8 CHR '' '' (get_visibility (st_other sym))
                    @ '' '' @ pad_left 6 CHR '' '' (get_index (st_shndx sym))
                    @ '' '' @ name @ [newline])"
proof -
  obtain lines r where s: "symtab_sections elf (sh_offset strtab) section_headers = (lines, r)"
    by (cases "symtab_sections elf (sh_offset strtab) section_headers")
  with assms have out: "fst (parse_symtab elf section_headers) = symtab_header @ concat lines"
    by (simp add: parse_symtab_def)
  have "\<exists>h \<in> set section_headers. \<exists>i (sym :: Elf32_Sym) ty bnd name.
                sh_type h = SYMTAB_TYPE \<and> i < sym_count h
              \<and> read_sym elf (sym_pos h i) = Inr sym
              \<and> get_type (ucast (st_info sym)) = Inr ty
              \<and> get_bind (ucast (st_info sym)) = Inr bnd
              \<and> get_name elf (st_name sym) (sh_offset strtab) = Inr name
              \<and> l = symtab_line i (st_value sym) (st_size sym) ty bnd
                      (get_visibility (st_other sym)) (get_index (st_shndx sym)) name"
    if "l \<in> set lines" for l
  proof -
    from symtab_sections_lines [OF s] that obtain h i where
      h: "h \<in> set section_headers" "sh_type h = SYMTAB_TYPE" "i < sym_count h"
        "symtab_entry elf (sh_offset strtab) h i = Inr l"
      by blast
    from symtab_entry_format [OF h(4)] h(1-3) show ?thesis
      by blast
  qed
  then show ?thesis
    unfolding out symtab_header_eq symtab_line_def
    by (intro exI [of _ lines]) simp
qed

text \<open>
  The theorem on a file with one symbol record (name main, value 0, size 0, info
  \<^verbatim>\<open>0x12\<close>, section index 1) followed by the string table.
\<close>

theorem symtab_dump_format_witness:
  "section_at
     [\<lparr>sh_name = 0, sh_type = 2, sh_flags = 0, sh_addr = 0, sh_offset = 0, sh_size = 16,
        sh_link = 0, sh_info = 0, sh_addralign = 0, sh_entsize = 0\<rparr>,
      \<lparr>sh_name = 0, sh_type = 3, sh_flags = 0, sh_addr = 0, sh_offset = 16, sh_size = 6,
        sh_link = 0, sh_info = 0, sh_addralign = 0, sh_entsize = 0\<rparr>]
     (find_section
        [\<lparr>sh_name = 0, sh_type = 2, sh_flags = 0, sh_addr = 0, sh_offset = 0, sh_size = 16,
           sh_link = 0, sh_info = 0, sh_addralign = 0, sh_entsize = 0\<rparr>,
         \<lparr>sh_name = 0, sh_type = 3, sh_flags = 0, sh_addr = 0, sh_offset = 16, sh_size = 6,
           sh_link = 0, sh_info = 0, sh_addralign = 0, sh_entsize = 0\<rparr>] STRTAB_TYPE)
     = Inr \<lparr>sh_name = 0, sh_type = 3, sh_flags = 0, sh_addr = 0, sh_offset = 16, sh_size = 6,
             sh_link = 0, sh_info = 0, sh_addralign = 0, sh_entsize = 0\<rparr>
   \<and> parse_symtab
       [1, 0, 0, 0, 0, 0, 0, 0, 0, 0, 0, 0, 0x12, 0, 1, 0, 0, 0x6d, 0x61, 0x69, 0x6e, 0]
       [\<lparr>sh_name = 0, sh_type = 2, sh_flags = 0, sh_addr = 0, sh_offset = 0, sh_size = 16,
          sh_link = 0, sh_info = 0, sh_addralign = 0, sh_entsize = 0\<rparr>,
        \<lparr>sh_name = 0, sh_type = 3, sh_flags = 0, sh_addr = 0, sh_offset = 16, sh_size = 6,
          sh_link = 0, sh_info = 0, sh_addralign = 0, sh_entsize = 0\<rparr>]
     = (''Symbol Value              Size Type     Bind     Vis       Index Name'' @ [newline]
          @ ''[   0] 0x0                   0 FUNC     GLOBAL   DEFAULT       1 main'' @ [newline],
        None)"
proof -
  let ?elf = "[1, 0, 0, 0, 0, 0, 0, 0, 0, 0, 0, 0, 0x12, 0, 1, 0, 0, 0x6d, 0x61, 0x69, 0x6e, 0]
                :: u8 list"
  let ?sym = "\<lparr>sh_name = 0, sh_type = 2, sh_flags = 0, sh_addr = 0, sh_offset = 0, sh_size = 16,
        sh_link = 0, sh_info = 0, sh_addralign = 0, sh_entsize = 0\<rparr> :: Elf32_section_header"
  let ?str = "\<lparr>sh_name = 0, sh_type = 3, sh_flags = 0, sh_addr = 0, sh_offset = 16, sh_size = 6,
        sh_link = 0, sh_info = 0, sh_addralign = 0, sh_entsize = 0\<rparr> :: Elf32_section_header"
  have st: "section_at [?sym, ?str] (find_section [?sym, ?str] STRTAB_TYPE) = Inr ?str"
    by (simp add: section_at_def find_section_def STRTAB_TYPE_def)
  have n: "read_cstring ?elf 17 = Inr ''main''"
    by (simp add: read_cstring.simps char_of_def bit_Suc_0_iff)
  have e: "symtab_entry ?elf 16 ?sym 0
             = Inr (''[   0] 0x0                   0 FUNC     GLOBAL   DEFAULT       1 main''
                      @ [newline])"
    apply (simp add: symtab_entry_def read_sym_def sym_pos_def le32_def le16_def get_name_def n
             get_type_def get_bind_def get_visibility_def get_index_def)
    apply (simp add: sprintf_def MAX_LENGTH_def symtab_line_def fmt_eval)
    done
  have p: "parse_symtab ?elf [?sym, ?str]
     = (''Symbol Value              Size Type     Bind     Vis       Index Name'' @ [newline]
          @ ''[   0] 0x0                   0 FUNC     GLOBAL   DEFAULT       1 main'' @ [newline],
        None)"
    by (simp add: parse_symtab_def st symtab_header_eq SYMTAB_TYPE_def sym_count_def e)
  from symtab_dump_format [OF st, of ?elf] st p show ?thesis
    by simp
qed

text \<open>
  Claim C9 as stated fails on a file with no symbol: the dump is the header line alone,
  and it differs from the header of the claim in the number of spaces before Size and
  before Index.
\<close>

theorem symtab_header_counterexample:
  "parse_symtab []
     [\<lparr>sh_name = 0, sh_type = 3, sh_flags = 0, sh_addr = 0, sh_offset = 0, sh_size = 0,
        sh_link = 0, sh_info = 0, sh_addralign = 0, sh_entsize = 0\<rparr>]
     = (''Symbol Value              Size Type     Bind     Vis       Index Name'' @ [newline], None)
   \<and> (\<nexists>body. fst (parse_symtab []
         [\<lparr>sh_name = 0, sh_type = 3, sh_flags = 0, sh_addr = 0, sh_offset = 0, sh_size = 0,
            sh_link = 0, sh_info = 0, sh_addralign = 0, sh_entsize = 0\<rparr>])
       = ''Symbol Value           Size Type     Bind     Vis        Index Name'' @ [newline] @ body)"
  by (simp add: parse_symtab_def section_at_def find_section_def STRTAB_TYPE_def SYMTAB_TYPE_def
        symtab_header_eq)

end
